theory Spec2Isabelle
  imports Main "HOL-Library.AList"
begin

section \<open>Strings and JavaScript values\<close>

text \<open>
  Strings are lists of characters (the bytes of their UTF-8 encoding). The string methods
  \<open>trim\<close>, \<open>toUpperCase\<close> and \<open>toLowerCase\<close> belong to the platform, not to the
  application: they are parameters of the model, collected in a record, and every function
  that calls one of them takes the record as its first argument. A theorem about such a
  function holds for whatever the three methods compute.
\<close>

record platform =
  trim :: "string \<Rightarrow> string"
  toUpperCase :: "string \<Rightarrow> string"
  toLowerCase :: "string \<Rightarrow> string"

text \<open>
  On ASCII strings the three methods are known: \<open>toUpperCase\<close> maps \<open>a\<close>..\<open>z\<close> to
  \<open>A\<close>..\<open>Z\<close>, \<open>toLowerCase\<close> maps \<open>A\<close>..\<open>Z\<close> to \<open>a\<close>..\<open>z\<close>, both leave every other
  ASCII character alone, and \<open>trim\<close> removes the ASCII white space (tab, line feed,
  vertical tab, form feed, carriage return, space) at both ends. \<open>agrees_on_ascii P\<close>
  says that the methods of \<open>P\<close> do this on every ASCII string; nothing is said about
  strings with other characters. \<open>ascii_platform\<close> is one such platform, used where an
  example needs a platform in full: on ASCII strings its methods are those of the platform,
  on other strings they are not (they leave every other character alone and remove no
  other white space), and the examples hold ASCII strings only.
\<close>

definition ascii :: "string \<Rightarrow> bool" where
  "ascii s = list_all (\<lambda>c. (of_char c :: nat) < 128) s"

definition upper_char :: "char \<Rightarrow> char" where
  "upper_char c =
     (let n = (of_char c :: nat) in if 97 \<le> n \<and> n \<le> 122 then char_of (n - 32) else c)"

definition lower_char :: "char \<Rightarrow> char" where
  "lower_char c =
     (let n = (of_char c :: nat) in if 65 \<le> n \<and> n \<le> 90 then char_of (n + 32) else c)"

definition ascii_toUpperCase :: "string \<Rightarrow> string" where
  "ascii_toUpperCase s = map upper_char s"

definition ascii_toLowerCase :: "string \<Rightarrow> string" where
  "ascii_toLowerCase s = map lower_char s"

definition ascii_space :: "char \<Rightarrow> bool" where
  "ascii_space c = ((of_char c :: nat) \<in> {9, 10, 11, 12, 13, 32})"

definition ascii_trim :: "string \<Rightarrow> string" where
  "ascii_trim s = rev (dropWhile ascii_space (rev (dropWhile ascii_space s)))"

definition agrees_on_ascii :: "platform \<Rightarrow> bool" where
  "agrees_on_ascii P =
     (\<forall>s. ascii s \<longrightarrow>
        trim P s = ascii_trim s
        \<and> toUpperCase P s = ascii_toUpperCase s
        \<and> toLowerCase P s = ascii_toLowerCase s)"

definition ascii_platform :: platform where
  "ascii_platform =
     \<lparr>trim = ascii_trim, toUpperCase = ascii_toUpperCase, toLowerCase = ascii_toLowerCase\<rparr>"

text \<open>
  The values held in filter records and in the records handed to the setters: \<open>null\<close>,
  booleans, numbers, strings and arrays of strings. A record (a plain object) is an
  association list from property names to values; reading a property is \<open>map_of\<close>, an
  assignment \<open>obj.k = v\<close> is \<open>AList.update\<close>, and \<open>hasOwnProperty\<close> is membership of
  the key in the domain.
\<close>

datatype jsval = JNull | JBool bool | JNum int | JStr string | JArr "string list"

type_synonym jsobj = "(string \<times> jsval) list"

datatype error = TypeError

fun truthy :: "jsval \<Rightarrow> bool" where
  "truthy JNull = False"
| "truthy (JBool b) = b"
| "truthy (JNum n) = (n \<noteq> 0)"
| "truthy (JStr s) = (s \<noteq> [])"
| "truthy (JArr xs) = True"

text \<open>\<open>x || []\<close> for a property that may be missing.\<close>

fun or_empty :: "jsval option \<Rightarrow> jsval" where
  "or_empty None = JArr []"
| "or_empty (Some v) = (if truthy v then v else JArr [])"

text \<open>
  \<open>(x || []).map(f)\<close>: an array is mapped; any other truthy value has no \<open>map\<close>
  method and the call throws a TypeError.
\<close>

fun map_js :: "(string \<Rightarrow> string) \<Rightarrow> jsval \<Rightarrow> error + string list" where
  "map_js f (JArr xs) = Inr (map f xs)"
| "map_js f v = Inl TypeError"

definition or_empty_map :: "(string \<Rightarrow> string) \<Rightarrow> jsval option \<Rightarrow> error + string list" where
  "or_empty_map f x = map_js f (or_empty x)"

section \<open>Query parameters and the chain registry\<close>

text \<open>
  \<open>URLSearchParams\<close> is the list of name/value pairs of the query, in order;
  \<open>params.get(name)\<close> is the value of the first pair with that name, or \<open>null\<close>.
\<close>

type_synonym query = "(string \<times> string) list"

definition params_get :: "query \<Rightarrow> string \<Rightarrow> string option" where
  "params_get q name = map_of q name"

text \<open>\<open>s || ''\<close> for a string that may be \<open>null\<close>.\<close>

fun or_str :: "string option \<Rightarrow> string" where
  "or_str None = []"
| "or_str (Some s) = s"

text \<open>\<open>searchParams.delete(name)\<close> removes every pair with that name.\<close>

definition params_delete :: "string \<Rightarrow> query \<Rightarrow> query" where
  "params_delete name q = filter (\<lambda>p. fst p \<noteq> name) q"

text \<open>
  \<open>searchParams.set(name, v)\<close> overwrites the first pair with that name and removes the
  others, or appends a new pair when there is none.
\<close>

fun params_set :: "string \<Rightarrow> string \<Rightarrow> query \<Rightarrow> query" where
  "params_set name v [] = [(name, v)]"
| "params_set name v (p # ps) =
     (if fst p = name then (name, v) # params_delete name ps else p # params_set name v ps)"

text \<open>
  The chain registry \<open>CONFIG_CHAINS\<close> is configuration data of the application; it is
  a parameter of the model: an ordinary object whose own properties map a chain key to its
  configuration. Of a configuration only the display name
  \<open>Nama_Chain\<close> is read here.

  A property read \<open>obj[k]\<close> on an ordinary object finds the object's own property, or else
  the member of that name inherited from \<open>Object.prototype\<close>, or else \<open>undefined\<close>.
\<close>

record chain_cfg =
  Nama_Chain :: "string option"

type_synonym registry = "(string \<times> chain_cfg) list"

datatype 'a js_prop = Own 'a | Inherited | Undefined

definition Object_prototype_names :: "string list" where
  "Object_prototype_names =
     [''constructor'', ''__proto__'', ''hasOwnProperty'', ''isPrototypeOf'',
      ''propertyIsEnumerable'', ''toLocaleString'', ''toString'', ''valueOf'',
      ''__defineGetter__'', ''__defineSetter__'', ''__lookupGetter__'', ''__lookupSetter__'']"

definition js_get :: "(string \<times> 'a) list \<Rightarrow> string \<Rightarrow> 'a js_prop" where
  "js_get obj k =
     (case map_of obj k of
        Some v \<Rightarrow> Own v
      | None \<Rightarrow> if k \<in> set Object_prototype_names then Inherited else Undefined)"

text \<open>
  Truthiness of what a registry read returns: a configuration object and an inherited
  member (a function or the prototype object) are truthy, \<open>undefined\<close> is not.
\<close>

fun prop_truthy :: "'a js_prop \<Rightarrow> bool" where
  "prop_truthy (Own v) = True"
| "prop_truthy Inherited = True"
| "prop_truthy Undefined = False"

section \<open>The global state\<close>

datatype app_mode = Multi | Single string | Cex string

text \<open>The controller's state, in memory and as persisted under \<open>CEX_MODE_STATE\<close>.\<close>

record CexModeState =
  active :: bool
  selectedCEX :: "string option"

text \<open>
  The state the functions read and write:
  \<^item> \<open>AppMode\<close>: the cached mode (\<open>window.AppMode\<close>); \<open>None\<close> is \<open>null\<close>. Every
    object stored there carries \<open>_cached: true\<close>.
  \<^item> \<open>location_search\<close>: the parameters of the current query string.
  \<^item> \<open>CONFIG_CHAINS\<close>, \<open>CONFIG_DEXS\<close>: the registries; \<open>None\<close> when not loaded. Of the
    DEX registry only the keys are read.
  \<^item> \<open>filter_storage\<close>: the records held by the key-value store under the filter keys.
  \<^item> \<open>cex_storage\<close>: the record held by the key-value store under \<open>CEX_MODE_STATE\<close>
    (no filter key equals it: filter keys start with \<open>FILTER_\<close>).
  \<^item> \<open>history_entries\<close>: the queries of the entries of the session history up to the
    current entry, oldest first; \<open>pushState\<close> adds an entry after the current one.
  \<^item> \<open>pushState_throws\<close>: whether the hosting environment rejects \<open>history.pushState\<close>.
  \<^item> \<open>manager\<close>: the fields \<open>active\<close> and \<open>selectedCEX\<close> of the controller.
  \<^item> \<open>refresh_calls\<close>: how often \<open>refreshTokensTable\<close> has been called.
\<close>

record window =
  AppMode :: "app_mode option"
  location_search :: query
  CONFIG_CHAINS :: "registry option"
  CONFIG_DEXS :: "string list option"
  filter_storage :: "(string \<times> jsobj) list"
  cex_storage :: "CexModeState option"
  history_entries :: "query list"
  pushState_throws :: bool
  manager :: CexModeState
  refresh_calls :: nat

section \<open>Mode resolution and key derivation (app-state.js)\<close>

text \<open>
  \<open>getAppMode\<close>: the cached object is returned when there is one; otherwise the mode is
  derived from the query, stored in the cache and returned. Nothing in the body throws
  on the values modelled here, so the \<open>catch\<close> branch is not reached.
\<close>

definition getAppMode :: "platform \<Rightarrow> window \<Rightarrow> app_mode \<times> window" where
  "getAppMode P w =
     (case AppMode w of
        Some m \<Rightarrow> (m, w)
      | None \<Rightarrow>
          (let params = location_search w;
               cexParam = trim P (or_str (params_get params ''cex''));
               chainParam = toLowerCase P (or_str (params_get params ''chain''));
               mode =
                 (if cexParam \<noteq> [] then Cex (toUpperCase P cexParam)
                  else if chainParam = [] \<or> chainParam = ''all'' then Multi
                  else if (case CONFIG_CHAINS w of
                             None \<Rightarrow> False
                           | Some reg \<Rightarrow> prop_truthy (js_get reg chainParam))
                    then Single chainParam
                  else Multi)
           in (mode, w\<lparr>AppMode := Some mode\<rparr>)))"

definition invalidateAppModeCache :: "window \<Rightarrow> window" where
  "invalidateAppModeCache w = w\<lparr>AppMode := None\<rparr>"

text \<open>
  The key derivations, as functions of the mode that \<open>getAppMode\<close> returned, and the two
  accessors that call \<open>getAppMode\<close> first.
\<close>

fun tokenKey :: "platform \<Rightarrow> app_mode \<Rightarrow> string" where
  "tokenKey P (Single chain) = ''TOKEN_'' @ toUpperCase P chain"
| "tokenKey P m = ''TOKEN_MULTICHAIN''"

fun filterKey :: "platform \<Rightarrow> app_mode \<Rightarrow> string" where
  "filterKey P (Single chain) = ''FILTER_'' @ toUpperCase P chain"
| "filterKey P (Cex cex) = ''FILTER_CEX_'' @ toUpperCase P cex"
| "filterKey P Multi = ''FILTER_MULTICHAIN''"

definition getActiveTokenKey :: "platform \<Rightarrow> window \<Rightarrow> string \<times> window" where
  "getActiveTokenKey P w = (case getAppMode P w of (m, w') \<Rightarrow> (tokenKey P m, w'))"

definition getActiveFilterKey :: "platform \<Rightarrow> window \<Rightarrow> string \<times> window" where
  "getActiveFilterKey P w = (case getAppMode P w of (m, w') \<Rightarrow> (filterKey P m, w'))"

section \<open>The key-value store\<close>

text \<open>
  Modelled from the spec: the key-value store behind \<open>getFromLocalStorage\<close> and
  \<open>saveToLocalStorage\<close>, the storage utilities of the application. The spec calls it a
  simple service \<open>get(key, default)\<close> / \<open>set(key, value)\<close>. The store is an association
  list from keys to the stored values; \<open>getFromLocalStorage\<close> returns \<open>None\<close> where
  the source receives its default argument.
\<close>

definition getFromLocalStorage :: "(string \<times> 'v) list \<Rightarrow> string \<Rightarrow> 'v option" where
  "getFromLocalStorage store key = map_of store key"

definition saveToLocalStorage :: "string \<Rightarrow> 'v \<Rightarrow> (string \<times> 'v) list \<Rightarrow> (string \<times> 'v) list" where
  "saveToLocalStorage key v store = AList.update key v store"

text \<open>\<open>getFromLocalStorage(key, {}) || {}\<close>.\<close>

fun or_obj :: "jsobj option \<Rightarrow> jsobj" where
  "or_obj None = []"
| "or_obj (Some obj) = obj"

section \<open>The filter store (filters.js)\<close>

definition hasOwnProperty :: "jsobj option \<Rightarrow> string \<Rightarrow> bool" where
  "hasOwnProperty val k = (case val of None \<Rightarrow> False | Some v \<Rightarrow> map_of v k \<noteq> None)"

definition get_prop :: "jsobj option \<Rightarrow> string \<Rightarrow> jsval option" where
  "get_prop val k = (case val of None \<Rightarrow> None | Some v \<Rightarrow> map_of v k)"

text \<open>
  One step of a setter:
  \<open>if (val && hasOwnProperty.call(val, k)) next[k] = (val[k] || []).map(f)\<close>.
\<close>

definition assign_mapped ::
  "string \<Rightarrow> (string \<Rightarrow> string) \<Rightarrow> jsobj option \<Rightarrow> jsobj \<Rightarrow> error + jsobj" where
  "assign_mapped k f val next =
     (if hasOwnProperty val k
      then (case or_empty_map f (get_prop val k) of
              Inl e \<Rightarrow> Inl e
            | Inr xs \<Rightarrow> Inr (AList.update k (JArr xs) next))
      else Inr next)"

definition getFilterMulti :: "platform \<Rightarrow> window \<Rightarrow> error + jsobj" where
  "getFilterMulti P w =
     (case getFromLocalStorage (filter_storage w) ''FILTER_MULTICHAIN'' of
        Some f \<Rightarrow>
          (case or_empty_map (toLowerCase P) (map_of f ''dex'') of
             Inl e \<Rightarrow> Inl e
           | Inr dex \<Rightarrow>
               (case or_empty_map (toUpperCase P) (map_of f ''pair'') of
                  Inl e \<Rightarrow> Inl e
                | Inr pair \<Rightarrow>
                    Inr [(''chains'', or_empty (map_of f ''chains'')),
                         (''cex'', or_empty (map_of f ''cex'')),
                         (''dex'', JArr dex),
                         (''pair'', JArr pair)]))
      | None \<Rightarrow>
          Inr [(''chains'', JArr []), (''cex'', JArr []), (''dex'', JArr []), (''pair'', JArr [])])"

definition setFilterMulti :: "platform \<Rightarrow> jsobj option \<Rightarrow> window \<Rightarrow> error + window" where
  "setFilterMulti P val w =
     (let prev = or_obj (getFromLocalStorage (filter_storage w) ''FILTER_MULTICHAIN'') in
      case assign_mapped ''chains'' (toLowerCase P) val prev of
        Inl e \<Rightarrow> Inl e
      | Inr n1 \<Rightarrow>
      (case assign_mapped ''cex'' (toUpperCase P) val n1 of
        Inl e \<Rightarrow> Inl e
      | Inr n2 \<Rightarrow>
      (case assign_mapped ''dex'' (toLowerCase P) val n2 of
        Inl e \<Rightarrow> Inl e
      | Inr n3 \<Rightarrow>
      (case assign_mapped ''pair'' (toUpperCase P) val n3 of
        Inl e \<Rightarrow> Inl e
      | Inr next \<Rightarrow>
          Inr (w\<lparr>filter_storage :=
                   saveToLocalStorage ''FILTER_MULTICHAIN'' next (filter_storage w)\<rparr>)))))"

text \<open>
  \<open>getFilterChain\<close> returns its result (or the TypeError thrown while building it) together
  with the state, since the migration of a legacy record writes to the store before the
  result is built.
\<close>

definition legacy_name :: "platform \<Rightarrow> window \<Rightarrow> string \<Rightarrow> string" where
  "legacy_name P w chainKey =
     toUpperCase P (or_str
       (case CONFIG_CHAINS w of
          None \<Rightarrow> None
        | Some reg \<Rightarrow> (case js_get reg chainKey of Own cfg \<Rightarrow> Nama_Chain cfg | _ \<Rightarrow> None)))"

definition chain_result :: "platform \<Rightarrow> jsobj option \<Rightarrow> error + jsobj" where
  "chain_result P f =
     (case f of
        Some f \<Rightarrow>
          (case or_empty_map (\<lambda>x. x) (map_of f ''cex'') of
             Inl e \<Rightarrow> Inl e
           | Inr cex \<Rightarrow>
               (case or_empty_map (toUpperCase P) (map_of f ''pair'') of
                  Inl e \<Rightarrow> Inl e
                | Inr pair \<Rightarrow>
                    (case or_empty_map (toLowerCase P) (map_of f ''dex'') of
                       Inl e \<Rightarrow> Inl e
                     | Inr dex \<Rightarrow>
                         Inr [(''cex'', JArr cex), (''pair'', JArr pair), (''dex'', JArr dex)])))
      | None \<Rightarrow> Inr [(''cex'', JArr []), (''pair'', JArr []), (''dex'', JArr [])])"

definition getFilterChain :: "platform \<Rightarrow> string \<Rightarrow> window \<Rightarrow> (error + jsobj) \<times> window" where
  "getFilterChain P chain w =
     (let chainKey = toLowerCase P chain;
          key = ''FILTER_'' @ toUpperCase P chainKey
      in case getFromLocalStorage (filter_storage w) key of
           Some f \<Rightarrow> (chain_result P (Some f), w)
         | None \<Rightarrow>
             (let legacyName = legacy_name P w chainKey
              in if legacyName \<noteq> []
                 then (case getFromLocalStorage (filter_storage w) (''FILTER_'' @ legacyName) of
                         Some lf \<Rightarrow>
                           (chain_result P (Some lf),
                            w\<lparr>filter_storage := saveToLocalStorage key lf (filter_storage w)\<rparr>)
                       | None \<Rightarrow> (chain_result P None, w))
                 else (chain_result P None, w)))"

definition setFilterChain :: "platform \<Rightarrow> string \<Rightarrow> jsobj option \<Rightarrow> window \<Rightarrow> error + window" where
  "setFilterChain P chain val w =
     (let key = ''FILTER_'' @ toUpperCase P chain;
          prev = or_obj (getFromLocalStorage (filter_storage w) key) in
      case assign_mapped ''cex'' (\<lambda>x. x) val prev of
        Inl e \<Rightarrow> Inl e
      | Inr n1 \<Rightarrow>
      (case assign_mapped ''pair'' (toUpperCase P) val n1 of
        Inl e \<Rightarrow> Inl e
      | Inr n2 \<Rightarrow>
      (case assign_mapped ''dex'' (toLowerCase P) val n2 of
        Inl e \<Rightarrow> Inl e
      | Inr next \<Rightarrow>
          Inr (w\<lparr>filter_storage := saveToLocalStorage key next (filter_storage w)\<rparr>))))"

text \<open>\<open>f.sort || 'A'\<close>.\<close>

fun or_A :: "jsval option \<Rightarrow> jsval" where
  "or_A None = JStr ''A''"
| "or_A (Some v) = (if truthy v then v else JStr ''A'')"

text \<open>\<open>Object.keys(registry || {})\<close>.\<close>

fun keys_or_empty :: "(string \<times> 'a) list option \<Rightarrow> string list" where
  "keys_or_empty None = []"
| "keys_or_empty (Some reg) = map fst reg"

fun strings_or_empty :: "string list option \<Rightarrow> string list" where
  "strings_or_empty None = []"
| "strings_or_empty (Some ks) = ks"

definition getFilterCEX :: "platform \<Rightarrow> string \<Rightarrow> window \<Rightarrow> error + jsobj" where
  "getFilterCEX P cexName w =
     (let key = ''FILTER_CEX_'' @ toUpperCase P cexName
      in case getFromLocalStorage (filter_storage w) key of
           Some f \<Rightarrow>
             (case or_empty_map (toUpperCase P) (map_of f ''pair'') of
                Inl e \<Rightarrow> Inl e
              | Inr pair \<Rightarrow>
                  (case or_empty_map (toLowerCase P) (map_of f ''dex'') of
                     Inl e \<Rightarrow> Inl e
                   | Inr dex \<Rightarrow>
                       Inr [(''chains'', or_empty (map_of f ''chains'')),
                            (''pair'', JArr pair),
                            (''dex'', JArr dex),
                            (''sort'', or_A (map_of f ''sort''))]))
         | None \<Rightarrow>
             Inr [(''chains'', JArr (keys_or_empty (CONFIG_CHAINS w))),
                  (''pair'', JArr []),
                  (''dex'', JArr (map (toLowerCase P) (strings_or_empty (CONFIG_DEXS w)))),
                  (''sort'', JStr ''A'')])"

text \<open>
  Merge-on-write, in the spec's words: a write supplies a partial record; only the fields
  present in the input are normalized and overwritten, the fields absent from it are left
  untouched. \<open>merge_on_write flds val prev k\<close> is the value that this contract gives the
  property \<open>k\<close> of the stored record, when \<open>prev\<close> was stored before and \<open>flds\<close> lists
  the fields of the scope with their normalizations.
\<close>

definition merge_on_write ::
  "(string \<times> (string \<Rightarrow> string)) list \<Rightarrow> jsobj option \<Rightarrow> jsobj \<Rightarrow> string \<Rightarrow> jsval option" where
  "merge_on_write flds val prev k =
     (case map_of flds k of
        Some f \<Rightarrow>
          if hasOwnProperty val k
          then (case or_empty_map f (get_prop val k) of
                  Inr xs \<Rightarrow> Some (JArr xs)
                | Inl e \<Rightarrow> None)
          else map_of prev k
      | None \<Rightarrow> map_of prev k)"

definition multi_fields :: "platform \<Rightarrow> (string \<times> (string \<Rightarrow> string)) list" where
  "multi_fields P =
     [(''chains'', toLowerCase P), (''cex'', toUpperCase P), (''dex'', toLowerCase P),
      (''pair'', toUpperCase P)]"

definition chain_fields :: "platform \<Rightarrow> (string \<times> (string \<Rightarrow> string)) list" where
  "chain_fields P = [(''cex'', \<lambda>x. x), (''pair'', toUpperCase P), (''dex'', toLowerCase P)]"

text \<open>
  What a getter's result \<open>r\<close> holds for the property \<open>k\<close> of the stored record \<open>f\<close>:
  the stored array mapped with \<open>g\<close> (\<open>reads_mapped\<close>), or the stored array as it is
  (\<open>reads_as_stored\<close>); and whether every string of an array is in lower or upper case,
  that is, left as it is by \<open>toLowerCase\<close> or by \<open>toUpperCase\<close>.
\<close>

definition reads_mapped :: "jsobj \<Rightarrow> jsobj \<Rightarrow> string \<Rightarrow> (string \<Rightarrow> string) \<Rightarrow> bool" where
  "reads_mapped f r k g =
     (case or_empty_map g (map_of f k) of
        Inr xs \<Rightarrow> map_of r k = Some (JArr xs)
      | Inl e \<Rightarrow> False)"

definition reads_as_stored :: "jsobj \<Rightarrow> jsobj \<Rightarrow> string \<Rightarrow> bool" where
  "reads_as_stored f r k =
     (case map_of f k of
        Some (JArr xs) \<Rightarrow> map_of r k = Some (JArr xs)
      | _ \<Rightarrow> True)"

definition lower_cased :: "platform \<Rightarrow> jsval option \<Rightarrow> bool" where
  "lower_cased P v = (case v of Some (JArr xs) \<Rightarrow> list_all (\<lambda>x. toLowerCase P x = x) xs | _ \<Rightarrow> False)"

definition upper_cased :: "platform \<Rightarrow> jsval option \<Rightarrow> bool" where
  "upper_cased P v = (case v of Some (JArr xs) \<Rightarrow> list_all (\<lambda>x. toUpperCase P x = x) xs | _ \<Rightarrow> False)"

text \<open>Whether the strings of a stored array, if there is one, are ASCII strings.\<close>

definition ascii_array :: "jsval option \<Rightarrow> bool" where
  "ascii_array v = (case v of Some (JArr xs) \<Rightarrow> list_all ascii xs | _ \<Rightarrow> True)"

section \<open>The CEX mode controller\<close>

text \<open>
  The controller's methods, as functions on the global state. Of their effects the model
  keeps the controller's fields, the persisted record, the query and the session history,
  the mode cache and the calls of \<open>refreshTokensTable\<close>. The changes to the document
  (style properties, classes, title, icon, toolbar), the notifications, the installation of
  the navigation listeners and the calls that are deferred with \<open>setTimeout\<close> are left
  out; the table-refresh hook \<open>refreshTokensTable\<close> is taken to be defined and is only
  counted.
\<close>

definition loadState :: "window \<Rightarrow> CexModeState" where
  "loadState w =
     (case cex_storage w of
        Some stored \<Rightarrow> stored
      | None \<Rightarrow> \<lparr>active = False, selectedCEX = None\<rparr>)"

text \<open>\<open>s || null\<close> for a string that may be \<open>null\<close>.\<close>

fun or_null :: "string option \<Rightarrow> string option" where
  "or_null None = None"
| "or_null (Some s) = (if s \<noteq> [] then Some s else None)"

definition constructor :: "window \<Rightarrow> window" where
  "constructor w =
     (let state = loadState w
      in w\<lparr>manager := \<lparr>active = active state, selectedCEX = or_null (selectedCEX state)\<rparr>\<rparr>)"

definition saveState :: "window \<Rightarrow> window" where
  "saveState w =
     w\<lparr>cex_storage := Some \<lparr>active = active (manager w), selectedCEX = selectedCEX (manager w)\<rparr>\<rparr>"

text \<open>
  \<open>try { ...; window.history.pushState({}, '', url.toString()) } catch (e) { ... }\<close>: a new
  entry with the rewritten query, unless the environment rejects the call.
\<close>

definition try_pushState :: "query \<Rightarrow> window \<Rightarrow> window" where
  "try_pushState url w =
     (if pushState_throws w then w
      else w\<lparr>location_search := url, history_entries := history_entries w @ [url]\<rparr>)"

definition refreshTokensTable :: "window \<Rightarrow> window" where
  "refreshTokensTable w = w\<lparr>refresh_calls := Suc (refresh_calls w)\<rparr>"

text \<open>
  \<open>resetTheme\<close> ends with \<open>applyThemeForMode()\<close>, which starts with \<open>getAppMode()\<close> and so
  fills the mode cache again.
\<close>

definition resetTheme :: "platform \<Rightarrow> window \<Rightarrow> window" where
  "resetTheme P w = snd (getAppMode P w)"

definition enableCEXMode :: "platform \<Rightarrow> string \<Rightarrow> bool \<Rightarrow> window \<Rightarrow> window" where
  "enableCEXMode P cexName reload w =
     (if cexName = [] then w
      else
        (let w1 = w\<lparr>manager := \<lparr>active = True, selectedCEX = Some (toUpperCase P cexName)\<rparr>\<rparr>;
             w2 = saveState w1;
             url = params_set ''cex'' (toLowerCase P (toUpperCase P cexName))
                     (params_delete ''chain'' (location_search w2));
             w3 = try_pushState url w2;
             w4 = invalidateAppModeCache w3
         in if reload then refreshTokensTable w4 else w4))"

definition disableCEXMode :: "platform \<Rightarrow> bool \<Rightarrow> window \<Rightarrow> window" where
  "disableCEXMode P reload w =
     (let w1 = w\<lparr>manager := \<lparr>active = False, selectedCEX = None\<rparr>\<rparr>;
          w2 = saveState w1;
          url = params_delete ''cex'' (location_search w2);
          w3 = try_pushState url w2;
          w4 = invalidateAppModeCache w3;
          w5 = resetTheme P w4
      in if reload then refreshTokensTable w5 else w5)"

definition toggleCEXMode :: "platform \<Rightarrow> string \<Rightarrow> window \<Rightarrow> window" where
  "toggleCEXMode P cexName w =
     (if active (manager w) \<and> selectedCEX (manager w) = Some cexName
      then disableCEXMode P True w
      else enableCEXMode P cexName True w)"

definition init :: "platform \<Rightarrow> window \<Rightarrow> window" where
  "init P w =
     (let cexParam = or_str (params_get (location_search w) ''cex'')
      in if cexParam \<noteq> [] then enableCEXMode P (toUpperCase P cexParam) False w
         else if active (manager w) \<and> or_null (selectedCEX (manager w)) \<noteq> None
           then disableCEXMode P False w
         else w)"

definition checkURLAndUpdateMode :: "platform \<Rightarrow> window \<Rightarrow> window" where
  "checkURLAndUpdateMode P w =
     (let cexParam = or_str (params_get (location_search w) ''cex'')
      in if cexParam \<noteq> []
         then (let cexUpper = toUpperCase P cexParam
               in if \<not> active (manager w) \<or> selectedCEX (manager w) \<noteq> Some cexUpper
                  then enableCEXMode P cexUpper False w
                  else w)
         else if active (manager w) then disableCEXMode P False w
         else w)"

text \<open>The invariant of the controller's state.\<close>

definition CexModeState_inv :: "CexModeState \<Rightarrow> bool" where
  "CexModeState_inv s = ((selectedCEX s \<noteq> None) = active s)"

section \<open>Example states\<close>

text \<open>A page with an empty query, nothing stored and no registry loaded.\<close>

definition blank_window :: window where
  "blank_window =
     \<lparr>AppMode = None, location_search = [], CONFIG_CHAINS = None, CONFIG_DEXS = None,
      filter_storage = [], cex_storage = None, history_entries = [], pushState_throws = False,
      manager = \<lparr>active = False, selectedCEX = None\<rparr>, refresh_calls = 0\<rparr>"

text \<open>A stored filter record with a pair selection and a threshold.\<close>

definition stored_pair_pnl :: jsobj where
  "stored_pair_pnl = [(''pair'', JArr [''BTCUSDT'']), (''pnl'', JNum 5)]"

text \<open>A stored filter record in mixed case, and a state that holds it in all three scopes.\<close>

definition mixed_case_filter :: jsobj where
  "mixed_case_filter =
     [(''chains'', JArr [''BSC'']), (''cex'', JArr [''binance'']), (''dex'', JArr [''UniSwap'']),
      (''pair'', JArr [''ethusdt''])]"

definition three_scopes_window :: window where
  "three_scopes_window =
     blank_window\<lparr>filter_storage :=
       [(''FILTER_MULTICHAIN'', mixed_case_filter), (''FILTER_BSC'', mixed_case_filter),
        (''FILTER_CEX_GATE'', mixed_case_filter)]\<rparr>"

text \<open>
  Two states in which a navigation has just happened: a link to \<open>?cex=gate\<close> was followed
  while the controller was inactive, and the user went back to \<open>?chain=bsc\<close> while the
  controller was active for OKX.
\<close>

definition cex_link_window :: window where
  "cex_link_window =
     blank_window\<lparr>location_search := [(''cex'', ''gate'')],
                   history_entries := [[], [(''cex'', ''gate'')]]\<rparr>"

definition back_from_okx_window :: window where
  "back_from_okx_window =
     blank_window\<lparr>location_search := [(''chain'', ''bsc'')],
                   history_entries := [[(''chain'', ''bsc'')]],
                   manager := \<lparr>active = True, selectedCEX = Some ''OKX''\<rparr>,
                   cex_storage := Some \<lparr>active = True, selectedCEX = Some ''OKX''\<rparr>\<rparr>"

text \<open>A registry with two chains.\<close>

definition two_chains :: registry where
  "two_chains =
     [(''bsc'', \<lparr>Nama_Chain = Some ''BNB''\<rparr>), (''ethereum'', \<lparr>Nama_Chain = Some ''Ethereum''\<rparr>)]"

section \<open>Facts about the methods on ASCII strings\<close>

lemma lower_char_idem: "lower_char (lower_char c) = lower_char c"
  by (simp add: lower_char_def Let_def)

lemma of_char_upper: "97 \<le> n \<Longrightarrow> n \<le> 122 \<Longrightarrow> (of_char (char_of (n - 32 :: nat)) :: nat) = n - 32"
  by simp

lemma of_char_lower: "65 \<le> n \<Longrightarrow> n \<le> 90 \<Longrightarrow> (of_char (char_of (n + 32 :: nat)) :: nat) = n + 32"
  by simp

lemma upper_char_idem: "upper_char (upper_char c) = upper_char c"
proof (cases "97 \<le> (of_char c :: nat) \<and> (of_char c :: nat) \<le> 122")
  case True
  then have u: "(of_char (upper_char c) :: nat) = of_char c - 32"
    by (simp add: upper_char_def of_char_upper del: of_char_of)
  from True have "\<not> (97 \<le> (of_char c :: nat) - 32 \<and> (of_char c :: nat) - 32 \<le> 122)"
    by arith
  with u show ?thesis by (auto simp add: upper_char_def [of "upper_char c"] Let_def)
next
  case False
  then have "upper_char c = c" by (auto simp add: upper_char_def Let_def)
  then show ?thesis by simp
qed

lemma upper_char_ascii: "(of_char c :: nat) < 128 \<Longrightarrow> (of_char (upper_char c) :: nat) < 128"
proof (cases "97 \<le> (of_char c :: nat) \<and> (of_char c :: nat) \<le> 122")
  case True
  then have "(of_char (upper_char c) :: nat) = of_char c - 32"
    by (simp add: upper_char_def of_char_upper del: of_char_of)
  moreover assume "(of_char c :: nat) < 128"
  ultimately show ?thesis by simp
next
  case False
  then have "upper_char c = c" by (auto simp add: upper_char_def Let_def)
  moreover assume "(of_char c :: nat) < 128"
  ultimately show ?thesis by simp
qed

lemma lower_char_ascii: "(of_char c :: nat) < 128 \<Longrightarrow> (of_char (lower_char c) :: nat) < 128"
proof (cases "65 \<le> (of_char c :: nat) \<and> (of_char c :: nat) \<le> 90")
  case True
  then have "(of_char (lower_char c) :: nat) = of_char c + 32"
    by (simp add: lower_char_def of_char_lower del: of_char_of)
  with True show ?thesis by simp
next
  case False
  then have "lower_char c = c" by (auto simp add: lower_char_def Let_def)
  moreover assume "(of_char c :: nat) < 128"
  ultimately show ?thesis by simp
qed

lemma ascii_toLowerCase_idem: "ascii_toLowerCase (ascii_toLowerCase s) = ascii_toLowerCase s"
  by (simp add: ascii_toLowerCase_def lower_char_idem)

lemma ascii_toUpperCase_idem: "ascii_toUpperCase (ascii_toUpperCase s) = ascii_toUpperCase s"
  by (simp add: ascii_toUpperCase_def upper_char_idem)

lemma ascii_toLowerCase_ascii: "ascii s \<Longrightarrow> ascii (ascii_toLowerCase s)"
  by (simp add: ascii_def ascii_toLowerCase_def list_all_iff lower_char_ascii)

lemma ascii_toUpperCase_ascii: "ascii s \<Longrightarrow> ascii (ascii_toUpperCase s)"
  by (simp add: ascii_def ascii_toUpperCase_def list_all_iff upper_char_ascii)

lemma agrees_on_ascii_platform: "agrees_on_ascii ascii_platform"
  by (simp add: agrees_on_ascii_def ascii_platform_def)

lemma agrees_trim: "agrees_on_ascii P \<Longrightarrow> ascii s \<Longrightarrow> trim P s = ascii_trim s"
  by (simp add: agrees_on_ascii_def)

lemma agrees_toUpperCase:
  "agrees_on_ascii P \<Longrightarrow> ascii s \<Longrightarrow> toUpperCase P s = ascii_toUpperCase s"
  by (simp add: agrees_on_ascii_def)

lemma agrees_toLowerCase:
  "agrees_on_ascii P \<Longrightarrow> ascii s \<Longrightarrow> toLowerCase P s = ascii_toLowerCase s"
  by (simp add: agrees_on_ascii_def)

lemma agrees_toLowerCase_idem:
  assumes "agrees_on_ascii P" and "ascii s"
  shows "toLowerCase P (toLowerCase P s) = toLowerCase P s"
proof -
  from assms have l: "toLowerCase P s = ascii_toLowerCase s" by (rule agrees_toLowerCase)
  from assms(2) have "ascii (ascii_toLowerCase s)" by (rule ascii_toLowerCase_ascii)
  with assms(1) have "toLowerCase P (ascii_toLowerCase s) = ascii_toLowerCase (ascii_toLowerCase s)"
    by (rule agrees_toLowerCase)
  with l show ?thesis by (simp add: ascii_toLowerCase_idem)
qed

lemma agrees_toUpperCase_idem:
  assumes "agrees_on_ascii P" and "ascii s"
  shows "toUpperCase P (toUpperCase P s) = toUpperCase P s"
proof -
  from assms have l: "toUpperCase P s = ascii_toUpperCase s" by (rule agrees_toUpperCase)
  from assms(2) have "ascii (ascii_toUpperCase s)" by (rule ascii_toUpperCase_ascii)
  with assms(1) have "toUpperCase P (ascii_toUpperCase s) = ascii_toUpperCase (ascii_toUpperCase s)"
    by (rule agrees_toUpperCase)
  with l show ?thesis by (simp add: ascii_toUpperCase_idem)
qed

section \<open>Mode resolution\<close>

lemma getAppMode_cached: "AppMode w = Some m \<Longrightarrow> getAppMode P w = (m, w)"
  by (simp add: getAppMode_def)

lemma getAppMode_fills_cache: "AppMode (snd (getAppMode P w)) = Some (fst (getAppMode P w))"
  by (cases "AppMode w") (simp_all add: getAppMode_def Let_def)

lemma getAppMode_frame:
  "snd (getAppMode P w) = w\<lparr>AppMode := Some (fst (getAppMode P w))\<rparr>"
  by (cases "AppMode w") (simp_all add: getAppMode_def Let_def)

text \<open>
  Claim C1. Every call of \<open>getAppMode\<close> returns one of the three modes. When the cache is
  empty and the query has a \<open>cex\<close> parameter whose trimmed value is not empty, the result
  is \<open>Cex\<close> with the trimmed value in upper case, whatever the \<open>chain\<close> parameter and the
  registries are: no registry is consulted. This holds for every query and for whatever
  \<open>trim\<close> and \<open>toUpperCase\<close> compute. (What a filled cache returns is the subject of
  claim C3.)
\<close>

theorem getAppMode_cex_param:
  "(fst (getAppMode P w) = Multi \<or> (\<exists>c. fst (getAppMode P w) = Single c)
      \<or> (\<exists>e. fst (getAppMode P w) = Cex e))
   \<and> (AppMode w = None \<longrightarrow> params_get (location_search w) ''cex'' = Some v \<longrightarrow>
        trim P v \<noteq> [] \<longrightarrow>
        fst (getAppMode P w) = Cex (toUpperCase P (trim P v)))"
proof
  show "fst (getAppMode P w) = Multi \<or> (\<exists>c. fst (getAppMode P w) = Single c)
      \<or> (\<exists>e. fst (getAppMode P w) = Cex e)"
    by (cases "fst (getAppMode P w)") simp_all
  show "AppMode w = None \<longrightarrow> params_get (location_search w) ''cex'' = Some v \<longrightarrow>
        trim P v \<noteq> [] \<longrightarrow>
        fst (getAppMode P w) = Cex (toUpperCase P (trim P v))"
    by (simp add: getAppMode_def Let_def)
qed

theorem getAppMode_cex_param_witness:
  "fst (getAppMode ascii_platform
         (blank_window\<lparr>location_search := [(''cex'', '' gate ''), (''chain'', ''bsc'')],
                       CONFIG_CHAINS := Some two_chains\<rparr>)) = Cex ''GATE''"
proof -
  let ?w = "blank_window\<lparr>location_search := [(''cex'', '' gate ''), (''chain'', ''bsc'')],
                         CONFIG_CHAINS := Some two_chains\<rparr>"
  have a: "AppMode ?w = None" by code_simp
  have b: "params_get (location_search ?w) ''cex'' = Some '' gate ''" by code_simp
  have c: "trim ascii_platform '' gate '' \<noteq> []" by code_simp
  have d: "toUpperCase ascii_platform (trim ascii_platform '' gate '') = ''GATE''" by code_simp
  from getAppMode_cex_param [where P = ascii_platform and w = ?w and v = "'' gate ''"] a b c d
  show ?thesis by simp
qed

text \<open>
  The fallback for an unknown chain: with no \<open>cex\<close> value, a \<open>chain\<close> value that is
  neither an own key of the registry nor the name of a member of \<open>Object.prototype\<close>
  resolves to \<open>Multi\<close>.
\<close>

lemma getAppMode_unknown_chain:
  assumes "AppMode w = None"
    and "trim P (or_str (params_get (location_search w) ''cex'')) = []"
    and "CONFIG_CHAINS w = Some reg"
    and "map_of reg (toLowerCase P (or_str (params_get (location_search w) ''chain''))) = None"
    and "toLowerCase P (or_str (params_get (location_search w) ''chain''))
           \<notin> set Object_prototype_names"
  shows "fst (getAppMode P w) = Multi"
  using assms by (simp add: getAppMode_def Let_def js_get_def)

lemma ascii_examples:
  "ascii []" "ascii ''constructor''" "ascii ''uniswap''" "ascii ''ETHUSDT''"
  "ascii_trim [] = []"
  "ascii_toLowerCase ''constructor'' = ''constructor''"
  "ascii_toLowerCase ''uniswap'' = ''uniswap''"
  "ascii_toUpperCase ''ETHUSDT'' = ''ETHUSDT''"
  by code_simp+

text \<open>
  Claim C2. A \<open>chain\<close> value that is not a key of the registry should resolve to
  \<open>Multi\<close>. The test \<open>window.CONFIG_CHAINS[chainParam]\<close> is a property read, which
  also finds the members every ordinary object inherits: with the query
  \<open>?chain=constructor\<close> and a registry whose keys are \<open>bsc\<close> and \<open>ethereum\<close>, the result
  is \<open>Single\<close> with the chain \<open>constructor\<close>, on every platform whose methods do on ASCII
  strings what is known of them.
\<close>

theorem getAppMode_inherited_name_single:
  assumes "agrees_on_ascii P"
  shows "fst (getAppMode P (blank_window\<lparr>location_search := [(''chain'', ''constructor'')],
                                          CONFIG_CHAINS := Some two_chains\<rparr>))
         = Single ''constructor''"
proof -
  from assms have t: "trim P [] = []"
    by (simp add: agrees_trim ascii_examples)
  from assms have l: "toLowerCase P ''constructor'' = ''constructor''"
    by (simp add: agrees_toLowerCase ascii_examples)
  show ?thesis
    by (simp add: getAppMode_def Let_def blank_window_def two_chains_def params_get_def t l
        js_get_def Object_prototype_names_def)
qed

theorem getAppMode_inherited_name_single_witness:
  "fst (getAppMode ascii_platform
         (blank_window\<lparr>location_search := [(''chain'', ''constructor'')],
                       CONFIG_CHAINS := Some two_chains\<rparr>)) = Single ''constructor''"
  by (rule getAppMode_inherited_name_single [OF agrees_on_ascii_platform])

text \<open>
  Claim C3. After a call of \<open>getAppMode\<close>, a further call returns the same mode and leaves
  the state as it is, even when the query has been replaced by any other query \<open>q\<close> in
  between. \<open>invalidateAppModeCache\<close> clears the cache in every state and changes nothing
  else, and the call of \<open>getAppMode\<close> that follows it behaves as a call on an empty cache
  with the current query.
\<close>

theorem getAppMode_cached_until_invalidate:
  "getAppMode P (snd (getAppMode P w)\<lparr>location_search := q\<rparr>) =
     (fst (getAppMode P w), snd (getAppMode P w)\<lparr>location_search := q\<rparr>)
   \<and> invalidateAppModeCache w' = w'\<lparr>AppMode := None\<rparr>
   \<and> getAppMode P (invalidateAppModeCache (snd (getAppMode P w)\<lparr>location_search := q\<rparr>)) =
       getAppMode P (w\<lparr>AppMode := None, location_search := q\<rparr>)"
proof (intro conjI)
  have "AppMode (snd (getAppMode P w)\<lparr>location_search := q\<rparr>) = Some (fst (getAppMode P w))"
    by (simp add: getAppMode_fills_cache)
  then show "getAppMode P (snd (getAppMode P w)\<lparr>location_search := q\<rparr>) =
     (fst (getAppMode P w), snd (getAppMode P w)\<lparr>location_search := q\<rparr>)"
    by (rule getAppMode_cached)
  show "invalidateAppModeCache w' = w'\<lparr>AppMode := None\<rparr>"
    by (simp add: invalidateAppModeCache_def)
  have "invalidateAppModeCache (snd (getAppMode P w)\<lparr>location_search := q\<rparr>) =
        w\<lparr>AppMode := None, location_search := q\<rparr>"
    by (subst getAppMode_frame) (simp add: invalidateAppModeCache_def)
  then show "getAppMode P (invalidateAppModeCache (snd (getAppMode P w)\<lparr>location_search := q\<rparr>)) =
       getAppMode P (w\<lparr>AppMode := None, location_search := q\<rparr>)"
    by simp
qed

theorem getAppMode_cached_until_invalidate_witness:
  "fst (getAppMode ascii_platform
         (snd (getAppMode ascii_platform
                 (blank_window\<lparr>location_search := [(''chain'', ''bsc'')],
                               CONFIG_CHAINS := Some two_chains\<rparr>))
            \<lparr>location_search := [(''cex'', ''gate'')]\<rparr>)) = Single ''bsc''
   \<and> fst (getAppMode ascii_platform (invalidateAppModeCache
             (snd (getAppMode ascii_platform
                     (blank_window\<lparr>location_search := [(''chain'', ''bsc'')],
                                   CONFIG_CHAINS := Some two_chains\<rparr>))
                \<lparr>location_search := [(''cex'', ''gate'')]\<rparr>))) = Cex ''GATE''"
proof -
  let ?P = ascii_platform
  let ?w = "blank_window\<lparr>location_search := [(''chain'', ''bsc'')], CONFIG_CHAINS := Some two_chains\<rparr>"
  let ?q = "[(''cex'', ''gate'')]"
  have a: "fst (getAppMode ?P ?w) = Single ''bsc''" by code_simp
  have b: "fst (getAppMode ?P (?w\<lparr>AppMode := None, location_search := ?q\<rparr>)) = Cex ''GATE''"
    by code_simp
  note t = getAppMode_cached_until_invalidate [where P = ?P and w = ?w and q = ?q]
  from t have c1: "getAppMode ?P (snd (getAppMode ?P ?w)\<lparr>location_search := ?q\<rparr>) =
      (fst (getAppMode ?P ?w), snd (getAppMode ?P ?w)\<lparr>location_search := ?q\<rparr>)"
    by (rule conjunct1)
  from t have c3: "getAppMode ?P (invalidateAppModeCache (snd (getAppMode ?P ?w)\<lparr>location_search := ?q\<rparr>)) =
      getAppMode ?P (?w\<lparr>AppMode := None, location_search := ?q\<rparr>)"
    by (rule conjunct2 [THEN conjunct2])
  show ?thesis unfolding c1 c3 using a b by simp
qed

section \<open>Key derivation\<close>

text \<open>
  Claim C4. \<open>getActiveTokenKey\<close> resolves the mode with \<open>getAppMode\<close>, in every state,
  and returns the token key of that mode together with the state \<open>getAppMode\<close> leaves.
  For every exchange \<open>e\<close> the token key of \<open>Cex e\<close> is the token key of \<open>Multi\<close>, the
  aggregate key \<open>TOKEN_MULTICHAIN\<close>; for every chain \<open>c\<close> the token key of \<open>Single c\<close> is
  \<open>TOKEN_\<close> followed by \<open>c\<close> in upper case.
\<close>

theorem tokenKey_aggregate_shared:
  "getActiveTokenKey P w = (tokenKey P (fst (getAppMode P w)), snd (getAppMode P w))
   \<and> tokenKey P (Cex e) = tokenKey P Multi
   \<and> tokenKey P Multi = ''TOKEN_MULTICHAIN''
   \<and> tokenKey P (Single c) = ''TOKEN_'' @ toUpperCase P c
   \<and> fst (getActiveTokenKey P (w\<lparr>AppMode := Some m\<rparr>)) = tokenKey P m"
  by (simp add: getActiveTokenKey_def getAppMode_cached split: prod.splits)

theorem tokenKey_aggregate_shared_witness:
  "fst (getActiveTokenKey ascii_platform
          (blank_window\<lparr>location_search := [(''chain'', ''bsc'')],
                        CONFIG_CHAINS := Some two_chains\<rparr>)) = ''TOKEN_BSC''
   \<and> fst (getActiveTokenKey ascii_platform
          (blank_window\<lparr>location_search := [(''cex'', ''gate''), (''chain'', ''bsc'')],
                        CONFIG_CHAINS := Some two_chains\<rparr>)) = ''TOKEN_MULTICHAIN''
   \<and> fst (getActiveTokenKey ascii_platform
          (blank_window\<lparr>location_search := [(''chain'', ''all'')],
                        CONFIG_CHAINS := Some two_chains\<rparr>)) = ''TOKEN_MULTICHAIN''"
proof -
  let ?P = ascii_platform
  let ?s = "blank_window\<lparr>location_search := [(''chain'', ''bsc'')],
                         CONFIG_CHAINS := Some two_chains\<rparr>"
  let ?c = "blank_window\<lparr>location_search := [(''cex'', ''gate''), (''chain'', ''bsc'')],
                         CONFIG_CHAINS := Some two_chains\<rparr>"
  let ?m = "blank_window\<lparr>location_search := [(''chain'', ''all'')],
                         CONFIG_CHAINS := Some two_chains\<rparr>"
  have s: "fst (getAppMode ?P ?s) = Single ''bsc''" by code_simp
  have c: "fst (getAppMode ?P ?c) = Cex ''GATE''" by code_simp
  have m: "fst (getAppMode ?P ?m) = Multi" by code_simp
  have u: "toUpperCase ?P ''bsc'' = ''BSC''" by code_simp
  have 1: "fst (getActiveTokenKey ?P ?s) = tokenKey ?P (fst (getAppMode ?P ?s))"
    using tokenKey_aggregate_shared [where P = ?P and w = ?s] by simp
  have 2: "fst (getActiveTokenKey ?P ?c) = tokenKey ?P (fst (getAppMode ?P ?c))"
    using tokenKey_aggregate_shared [where P = ?P and w = ?c] by simp
  have 3: "fst (getActiveTokenKey ?P ?m) = tokenKey ?P (fst (getAppMode ?P ?m))"
    using tokenKey_aggregate_shared [where P = ?P and w = ?m] by simp
  from 1 2 3 s c m u show ?thesis by simp
qed

text \<open>
  Claim C5, as stated, fails: the filter key of the chain \<open>multichain\<close> is the filter key
  of \<open>Multi\<close>.
\<close>

theorem filterKey_collision_counterexample:
  "\<not> distinct [filterKey ascii_platform (Single ''multichain''),
                filterKey ascii_platform (Cex ''BINANCE''), filterKey ascii_platform Multi]"
  by code_simp

text \<open>
  Claim C5, amended. The filter keys of \<open>Single c\<close>, \<open>Cex e\<close> and \<open>Multi\<close> are pairwise
  distinct exactly when \<open>c\<close> in upper case is neither \<open>MULTICHAIN\<close> nor \<open>CEX_\<close> followed
  by \<open>e\<close> in upper case; the keys of \<open>Cex e\<close> and \<open>Multi\<close> always differ.
\<close>

theorem filterKey_distinct_iff:
  "distinct [filterKey P (Single c), filterKey P (Cex e), filterKey P Multi]
     = (toUpperCase P c \<noteq> ''MULTICHAIN'' \<and> toUpperCase P c \<noteq> ''CEX_'' @ toUpperCase P e)"
  by auto

theorem filterKey_distinct_iff_witness:
  "distinct [filterKey ascii_platform (Single ''bsc''), filterKey ascii_platform (Cex ''BINANCE''),
             filterKey ascii_platform Multi]"
proof -
  have "toUpperCase ascii_platform ''bsc'' \<noteq> ''MULTICHAIN''
        \<and> toUpperCase ascii_platform ''bsc'' \<noteq> ''CEX_'' @ toUpperCase ascii_platform ''BINANCE''"
    by code_simp
  with filterKey_distinct_iff [where P = ascii_platform and c = "''bsc''" and e = "''BINANCE''"]
  show ?thesis by simp
qed

section \<open>The filter store: writes\<close>

lemma assign_mapped_map_of:
  "assign_mapped k f val nxt = Inr n' \<Longrightarrow>
   map_of n' j =
     (if j = k \<and> hasOwnProperty val k
      then (case or_empty_map f (get_prop val k) of Inr xs \<Rightarrow> Some (JArr xs) | Inl e \<Rightarrow> None)
      else map_of nxt j)"
  by (auto simp add: assign_mapped_def update_conv' split: if_splits sum.splits)

lemma assign_mapped_fix:
  assumes "assign_mapped k f val nxt = Inr n'"
    and "hasOwnProperty val k \<longrightarrow> map_of m k = map_of n' k"
  shows "assign_mapped k f val m = Inr m"
proof (cases "hasOwnProperty val k")
  case False
  then show ?thesis by (simp add: assign_mapped_def)
next
  case True
  with assms(1) obtain xs where xs: "or_empty_map f (get_prop val k) = Inr xs"
    and n': "n' = AList.update k (JArr xs) nxt"
    by (auto simp add: assign_mapped_def split: sum.splits)
  from n' have "map_of n' k = Some (JArr xs)" by (simp add: update_conv')
  with assms(2) True have "map_of m k = Some (JArr xs)" by simp
  then have "AList.update k (JArr xs) m = m" by (rule update_triv)
  with True xs show ?thesis by (simp add: assign_mapped_def)
qed

lemma setFilterMulti_Inr:
  assumes "setFilterMulti P val w = Inr w'"
  obtains n1 n2 n3 n4 where
    "assign_mapped ''chains'' (toLowerCase P) val
       (or_obj (getFromLocalStorage (filter_storage w) ''FILTER_MULTICHAIN'')) = Inr n1"
    "assign_mapped ''cex'' (toUpperCase P) val n1 = Inr n2"
    "assign_mapped ''dex'' (toLowerCase P) val n2 = Inr n3"
    "assign_mapped ''pair'' (toUpperCase P) val n3 = Inr n4"
    "w' = w\<lparr>filter_storage := saveToLocalStorage ''FILTER_MULTICHAIN'' n4 (filter_storage w)\<rparr>"
  using assms by (auto simp add: setFilterMulti_def Let_def split: sum.splits)

lemma setFilterMulti_merge:
  assumes "setFilterMulti P val w = Inr w'"
  shows "\<exists>next. getFromLocalStorage (filter_storage w') ''FILTER_MULTICHAIN'' = Some next \<and>
           (\<forall>k. map_of next k =
              merge_on_write (multi_fields P) val
                (or_obj (getFromLocalStorage (filter_storage w) ''FILTER_MULTICHAIN'')) k)"
proof -
  from assms obtain n1 n2 n3 n4 where
    a: "assign_mapped ''chains'' (toLowerCase P) val
       (or_obj (getFromLocalStorage (filter_storage w) ''FILTER_MULTICHAIN'')) = Inr n1"
    "assign_mapped ''cex'' (toUpperCase P) val n1 = Inr n2"
    "assign_mapped ''dex'' (toLowerCase P) val n2 = Inr n3"
    "assign_mapped ''pair'' (toUpperCase P) val n3 = Inr n4"
    and w': "w' = w\<lparr>filter_storage := saveToLocalStorage ''FILTER_MULTICHAIN'' n4 (filter_storage w)\<rparr>"
    by (rule setFilterMulti_Inr)
  have "getFromLocalStorage (filter_storage w') ''FILTER_MULTICHAIN'' = Some n4"
    by (simp add: w' getFromLocalStorage_def saveToLocalStorage_def update_conv')
  moreover have "map_of n4 k =
              merge_on_write (multi_fields P) val
                (or_obj (getFromLocalStorage (filter_storage w) ''FILTER_MULTICHAIN'')) k" for k
    by (simp add: a [THEN assign_mapped_map_of] merge_on_write_def multi_fields_def)
  ultimately show ?thesis by blast
qed

lemma setFilterMulti_idem:
  assumes "setFilterMulti P val w = Inr w'"
  shows "setFilterMulti P val w' = Inr w'"
proof -
  from assms obtain n1 n2 n3 n4 where
    a: "assign_mapped ''chains'' (toLowerCase P) val
       (or_obj (getFromLocalStorage (filter_storage w) ''FILTER_MULTICHAIN'')) = Inr n1"
    "assign_mapped ''cex'' (toUpperCase P) val n1 = Inr n2"
    "assign_mapped ''dex'' (toLowerCase P) val n2 = Inr n3"
    "assign_mapped ''pair'' (toUpperCase P) val n3 = Inr n4"
    and w': "w' = w\<lparr>filter_storage := saveToLocalStorage ''FILTER_MULTICHAIN'' n4 (filter_storage w)\<rparr>"
    by (rule setFilterMulti_Inr)
  note m = a [THEN assign_mapped_map_of]
  have p: "or_obj (getFromLocalStorage (filter_storage w') ''FILTER_MULTICHAIN'') = n4"
    by (simp add: w' getFromLocalStorage_def saveToLocalStorage_def update_conv')
  have 1: "assign_mapped ''chains'' (toLowerCase P) val n4 = Inr n4"
    by (rule assign_mapped_fix [OF a(1)]) (simp add: m)
  have 2: "assign_mapped ''cex'' (toUpperCase P) val n4 = Inr n4"
    by (rule assign_mapped_fix [OF a(2)]) (simp add: m)
  have 3: "assign_mapped ''dex'' (toLowerCase P) val n4 = Inr n4"
    by (rule assign_mapped_fix [OF a(3)]) (simp add: m)
  have 4: "assign_mapped ''pair'' (toUpperCase P) val n4 = Inr n4"
    by (rule assign_mapped_fix [OF a(4)]) (simp add: m)
  have s: "saveToLocalStorage ''FILTER_MULTICHAIN'' n4 (filter_storage w') = filter_storage w'"
    by (simp add: w' saveToLocalStorage_def)
  show ?thesis
    by (simp add: setFilterMulti_def [of P val w'] p 1 2 3 4 s)
qed

lemma setFilterMulti_frame:
  assumes "setFilterMulti P val w = Inr w'" and "key \<noteq> ''FILTER_MULTICHAIN''"
  shows "getFromLocalStorage (filter_storage w') key = getFromLocalStorage (filter_storage w) key"
proof -
  from assms(1) obtain n4 where
    "w' = w\<lparr>filter_storage := saveToLocalStorage ''FILTER_MULTICHAIN'' n4 (filter_storage w)\<rparr>"
    by (auto elim: setFilterMulti_Inr)
  with assms(2) show ?thesis
    by (simp add: getFromLocalStorage_def saveToLocalStorage_def update_conv')
qed

lemma setFilterChain_Inr:
  assumes "setFilterChain P chain val w = Inr w'"
  obtains n1 n2 n3 where
    "assign_mapped ''cex'' (\<lambda>x. x) val
       (or_obj (getFromLocalStorage (filter_storage w) (''FILTER_'' @ toUpperCase P chain))) = Inr n1"
    "assign_mapped ''pair'' (toUpperCase P) val n1 = Inr n2"
    "assign_mapped ''dex'' (toLowerCase P) val n2 = Inr n3"
    "w' = w\<lparr>filter_storage :=
              saveToLocalStorage (''FILTER_'' @ toUpperCase P chain) n3 (filter_storage w)\<rparr>"
  using assms by (auto simp add: setFilterChain_def Let_def split: sum.splits)

lemma setFilterChain_merge:
  assumes "setFilterChain P chain val w = Inr w'"
  shows "\<exists>next. getFromLocalStorage (filter_storage w') (''FILTER_'' @ toUpperCase P chain) = Some next \<and>
           (\<forall>k. map_of next k =
              merge_on_write (chain_fields P) val
                (or_obj (getFromLocalStorage (filter_storage w) (''FILTER_'' @ toUpperCase P chain))) k)"
proof -
  from assms obtain n1 n2 n3 where
    a: "assign_mapped ''cex'' (\<lambda>x. x) val
       (or_obj (getFromLocalStorage (filter_storage w) (''FILTER_'' @ toUpperCase P chain))) = Inr n1"
    "assign_mapped ''pair'' (toUpperCase P) val n1 = Inr n2"
    "assign_mapped ''dex'' (toLowerCase P) val n2 = Inr n3"
    and w': "w' = w\<lparr>filter_storage :=
              saveToLocalStorage (''FILTER_'' @ toUpperCase P chain) n3 (filter_storage w)\<rparr>"
    by (rule setFilterChain_Inr)
  have "getFromLocalStorage (filter_storage w') (''FILTER_'' @ toUpperCase P chain) = Some n3"
    by (simp add: w' getFromLocalStorage_def saveToLocalStorage_def update_conv')
  moreover have "map_of n3 k =
              merge_on_write (chain_fields P) val
                (or_obj (getFromLocalStorage (filter_storage w) (''FILTER_'' @ toUpperCase P chain))) k" for k
    by (simp add: a [THEN assign_mapped_map_of] merge_on_write_def chain_fields_def)
  ultimately show ?thesis by blast
qed

lemma setFilterChain_idem:
  assumes "setFilterChain P chain val w = Inr w'"
  shows "setFilterChain P chain val w' = Inr w'"
proof -
  from assms obtain n1 n2 n3 where
    a: "assign_mapped ''cex'' (\<lambda>x. x) val
       (or_obj (getFromLocalStorage (filter_storage w) (''FILTER_'' @ toUpperCase P chain))) = Inr n1"
    "assign_mapped ''pair'' (toUpperCase P) val n1 = Inr n2"
    "assign_mapped ''dex'' (toLowerCase P) val n2 = Inr n3"
    and w': "w' = w\<lparr>filter_storage :=
              saveToLocalStorage (''FILTER_'' @ toUpperCase P chain) n3 (filter_storage w)\<rparr>"
    by (rule setFilterChain_Inr)
  note m = a [THEN assign_mapped_map_of]
  have p: "or_obj (getFromLocalStorage (filter_storage w') (''FILTER_'' @ toUpperCase P chain)) = n3"
    by (simp add: w' getFromLocalStorage_def saveToLocalStorage_def update_conv')
  have 1: "assign_mapped ''cex'' (\<lambda>x. x) val n3 = Inr n3"
    by (rule assign_mapped_fix [OF a(1)]) (simp add: m)
  have 2: "assign_mapped ''pair'' (toUpperCase P) val n3 = Inr n3"
    by (rule assign_mapped_fix [OF a(2)]) (simp add: m)
  have 3: "assign_mapped ''dex'' (toLowerCase P) val n3 = Inr n3"
    by (rule assign_mapped_fix [OF a(3)]) (simp add: m)
  have s: "saveToLocalStorage (''FILTER_'' @ toUpperCase P chain) n3 (filter_storage w') = filter_storage w'"
    by (simp add: w' saveToLocalStorage_def)
  from p 1 2 3 s show ?thesis
    by (simp add: setFilterChain_def [of P chain val w'] Let_def)
qed

lemma uniswap_lower: "agrees_on_ascii P \<Longrightarrow> toLowerCase P ''uniswap'' = ''uniswap''"
  by (simp add: agrees_toLowerCase ascii_examples)

lemma ETHUSDT_upper: "agrees_on_ascii P \<Longrightarrow> toUpperCase P ''ETHUSDT'' = ''ETHUSDT''"
  by (simp add: agrees_toUpperCase ascii_examples)

lemma setFilterMulti_dex_Inr:
  "\<exists>w1. setFilterMulti P (Some [(''dex'', JArr [''uniswap''])]) w = Inr w1"
  by (simp add: setFilterMulti_def assign_mapped_def hasOwnProperty_def get_prop_def or_empty_map_def)

lemma setFilterMulti_pair_Inr:
  "\<exists>w2. setFilterMulti P (Some [(''pair'', JArr [''ETHUSDT''])]) w = Inr w2"
  by (simp add: setFilterMulti_def assign_mapped_def hasOwnProperty_def get_prop_def or_empty_map_def)

lemma setFilterChain_dex_Inr:
  "\<exists>w1. setFilterChain P chain (Some [(''dex'', JArr [''uniswap''])]) w = Inr w1"
  by (simp add: setFilterChain_def Let_def assign_mapped_def hasOwnProperty_def get_prop_def
      or_empty_map_def)

lemma setFilterChain_pair_Inr:
  "\<exists>w2. setFilterChain P chain (Some [(''pair'', JArr [''ETHUSDT''])]) w = Inr w2"
  by (simp add: setFilterChain_def Let_def assign_mapped_def hasOwnProperty_def get_prop_def
      or_empty_map_def)

lemma setFilterMulti_dex_then_pair:
  assumes "agrees_on_ascii P"
  shows "\<exists>w1 w2 r.
     setFilterMulti P (Some [(''dex'', JArr [''uniswap''])]) w = Inr w1
     \<and> setFilterMulti P (Some [(''dex'', JArr [''uniswap''])]) w1 = Inr w1
     \<and> setFilterMulti P (Some [(''pair'', JArr [''ETHUSDT''])]) w1 = Inr w2
     \<and> getFromLocalStorage (filter_storage w2) ''FILTER_MULTICHAIN'' = Some r
     \<and> map_of r ''dex'' = Some (JArr [''uniswap''])
     \<and> map_of r ''pair'' = Some (JArr [''ETHUSDT''])"
proof -
  let ?D = "Some [(''dex'', JArr [''uniswap''])]" and ?Q = "Some [(''pair'', JArr [''ETHUSDT''])]"
  obtain w1 where w1: "setFilterMulti P ?D w = Inr w1"
    using setFilterMulti_dex_Inr by blast
  obtain w2 where w2: "setFilterMulti P ?Q w1 = Inr w2"
    using setFilterMulti_pair_Inr by blast
  from setFilterMulti_merge [OF w1] obtain r1 where
    r1: "getFromLocalStorage (filter_storage w1) ''FILTER_MULTICHAIN'' = Some r1"
    and m1: "\<And>k. map_of r1 k = merge_on_write (multi_fields P) ?D
                (or_obj (getFromLocalStorage (filter_storage w) ''FILTER_MULTICHAIN'')) k"
    by blast
  from setFilterMulti_merge [OF w2] r1 obtain r where
    r: "getFromLocalStorage (filter_storage w2) ''FILTER_MULTICHAIN'' = Some r"
    and m2: "\<And>k. map_of r k = merge_on_write (multi_fields P) ?Q r1 k"
    by auto
  have d1: "map_of r1 ''dex'' = Some (JArr [''uniswap''])"
    by (simp add: m1 merge_on_write_def multi_fields_def hasOwnProperty_def get_prop_def
        or_empty_map_def uniswap_lower [OF assms])
  have "map_of r ''dex'' = Some (JArr [''uniswap''])"
    by (simp add: m2 merge_on_write_def multi_fields_def hasOwnProperty_def d1)
  moreover have "map_of r ''pair'' = Some (JArr [''ETHUSDT''])"
    by (simp add: m2 merge_on_write_def multi_fields_def hasOwnProperty_def get_prop_def
        or_empty_map_def ETHUSDT_upper [OF assms])
  ultimately show ?thesis
    using w1 w2 r setFilterMulti_idem [OF w1] by blast
qed

lemma setFilterChain_dex_then_pair:
  assumes "agrees_on_ascii P"
  shows "\<exists>w1 w2 r.
     setFilterChain P chain (Some [(''dex'', JArr [''uniswap''])]) w = Inr w1
     \<and> setFilterChain P chain (Some [(''dex'', JArr [''uniswap''])]) w1 = Inr w1
     \<and> setFilterChain P chain (Some [(''pair'', JArr [''ETHUSDT''])]) w1 = Inr w2
     \<and> getFromLocalStorage (filter_storage w2) (''FILTER_'' @ toUpperCase P chain) = Some r
     \<and> map_of r ''dex'' = Some (JArr [''uniswap''])
     \<and> map_of r ''pair'' = Some (JArr [''ETHUSDT''])"
proof -
  let ?D = "Some [(''dex'', JArr [''uniswap''])]" and ?Q = "Some [(''pair'', JArr [''ETHUSDT''])]"
  let ?key = "''FILTER_'' @ toUpperCase P chain"
  obtain w1 where w1: "setFilterChain P chain ?D w = Inr w1"
    using setFilterChain_dex_Inr by blast
  obtain w2 where w2: "setFilterChain P chain ?Q w1 = Inr w2"
    using setFilterChain_pair_Inr by blast
  from setFilterChain_merge [OF w1] obtain r1 where
    r1: "getFromLocalStorage (filter_storage w1) ?key = Some r1"
    and m1: "\<And>k. map_of r1 k = merge_on_write (chain_fields P) ?D
                (or_obj (getFromLocalStorage (filter_storage w) ?key)) k"
    by blast
  from setFilterChain_merge [OF w2] r1 obtain r where
    r: "getFromLocalStorage (filter_storage w2) ?key = Some r"
    and m2: "\<And>k. map_of r k = merge_on_write (chain_fields P) ?Q r1 k"
    by auto
  have d1: "map_of r1 ''dex'' = Some (JArr [''uniswap''])"
    by (simp add: m1 merge_on_write_def chain_fields_def hasOwnProperty_def get_prop_def
        or_empty_map_def uniswap_lower [OF assms])
  have "map_of r ''dex'' = Some (JArr [''uniswap''])"
    by (simp add: m2 merge_on_write_def chain_fields_def hasOwnProperty_def d1)
  moreover have "map_of r ''pair'' = Some (JArr [''ETHUSDT''])"
    by (simp add: m2 merge_on_write_def chain_fields_def hasOwnProperty_def get_prop_def
        or_empty_map_def ETHUSDT_upper [OF assms])
  ultimately show ?thesis
    using w1 w2 r setFilterChain_idem [OF w1] by blast
qed

text \<open>
  The setters return whenever every value the input record holds is an array or falsy: only
  a truthy value without a \<open>map\<close> method makes them throw.
\<close>

lemma assign_mapped_returns:
  assumes "\<forall>v. get_prop val k = Some v \<longrightarrow> truthy v \<longrightarrow> (\<exists>xs. v = JArr xs)"
  shows "\<exists>n. assign_mapped k f val nxt = Inr n"
proof (cases "get_prop val k")
  case None
  then show ?thesis by (simp add: assign_mapped_def or_empty_map_def)
next
  case (Some v)
  with assms show ?thesis
    by (cases "truthy v") (auto simp add: assign_mapped_def or_empty_map_def)
qed

lemma setFilterMulti_returns:
  assumes "\<forall>k v. get_prop val k = Some v \<longrightarrow> truthy v \<longrightarrow> (\<exists>xs. v = JArr xs)"
  shows "\<exists>w'. setFilterMulti P val w = Inr w'"
proof -
  from assms have r: "\<And>k f nxt. \<exists>n. assign_mapped k f val nxt = Inr n"
    by (intro assign_mapped_returns) blast
  obtain n1 where 1: "assign_mapped ''chains'' (toLowerCase P) val
       (or_obj (getFromLocalStorage (filter_storage w) ''FILTER_MULTICHAIN'')) = Inr n1"
    using r by blast
  obtain n2 where 2: "assign_mapped ''cex'' (toUpperCase P) val n1 = Inr n2" using r by blast
  obtain n3 where 3: "assign_mapped ''dex'' (toLowerCase P) val n2 = Inr n3" using r by blast
  obtain n4 where 4: "assign_mapped ''pair'' (toUpperCase P) val n3 = Inr n4" using r by blast
  from 1 2 3 4 show ?thesis by (simp add: setFilterMulti_def)
qed

lemma setFilterChain_returns:
  assumes "\<forall>k v. get_prop val k = Some v \<longrightarrow> truthy v \<longrightarrow> (\<exists>xs. v = JArr xs)"
  shows "\<exists>w'. setFilterChain P chain val w = Inr w'"
proof -
  from assms have r: "\<And>k f nxt. \<exists>n. assign_mapped k f val nxt = Inr n"
    by (intro assign_mapped_returns) blast
  obtain n1 where 1: "assign_mapped ''cex'' (\<lambda>x. x) val
       (or_obj (getFromLocalStorage (filter_storage w) (''FILTER_'' @ toUpperCase P chain))) = Inr n1"
    using r by blast
  obtain n2 where 2: "assign_mapped ''pair'' (toUpperCase P) val n1 = Inr n2" using r by blast
  obtain n3 where 3: "assign_mapped ''dex'' (toLowerCase P) val n2 = Inr n3" using r by blast
  from 1 2 3 show ?thesis by (simp add: setFilterChain_def Let_def)
qed

text \<open>
  Claim C6. Filter writes merge. When \<open>setFilterMulti\<close> or \<open>setFilterChain\<close> returns, the
  record stored under the scope's key holds, for every property \<open>k\<close>, what merge-on-write
  prescribes: the normalized input value where \<open>k\<close> is a field of the scope present in the
  input, and the previously stored value otherwise. Writing the same input again leaves the
  whole state as it is. In particular, from any state, writing \<open>{dex: ["uniswap"]}\<close> twice
  gives the state that writing it once gives, and writing \<open>{pair: ["ETHUSDT"]}\<close> after it
  leaves both \<open>dex\<close> and \<open>pair\<close> in the stored record (the two strings are ASCII and
  already in the case their field is given, on every platform whose methods do on ASCII
  strings what is known of them).
\<close>

theorem setFilter_merge_on_write:
  "(setFilterMulti P val w = Inr w' \<longrightarrow>
      (\<exists>next. getFromLocalStorage (filter_storage w') ''FILTER_MULTICHAIN'' = Some next \<and>
         (\<forall>k. map_of next k =
            merge_on_write (multi_fields P) val
              (or_obj (getFromLocalStorage (filter_storage w) ''FILTER_MULTICHAIN'')) k))
      \<and> setFilterMulti P val w' = Inr w')
   \<and> (setFilterChain P chain val w = Inr w'' \<longrightarrow>
      (\<exists>next. getFromLocalStorage (filter_storage w'') (''FILTER_'' @ toUpperCase P chain) = Some next \<and>
         (\<forall>k. map_of next k =
            merge_on_write (chain_fields P) val
              (or_obj (getFromLocalStorage (filter_storage w) (''FILTER_'' @ toUpperCase P chain))) k))
      \<and> setFilterChain P chain val w'' = Inr w'')
   \<and> (agrees_on_ascii P \<longrightarrow> (\<exists>w1 w2 r.
        setFilterMulti P (Some [(''dex'', JArr [''uniswap''])]) w = Inr w1
        \<and> setFilterMulti P (Some [(''dex'', JArr [''uniswap''])]) w1 = Inr w1
        \<and> setFilterMulti P (Some [(''pair'', JArr [''ETHUSDT''])]) w1 = Inr w2
        \<and> getFromLocalStorage (filter_storage w2) ''FILTER_MULTICHAIN'' = Some r
        \<and> map_of r ''dex'' = Some (JArr [''uniswap''])
        \<and> map_of r ''pair'' = Some (JArr [''ETHUSDT''])))
   \<and> (agrees_on_ascii P \<longrightarrow> (\<exists>w1 w2 r.
        setFilterChain P chain (Some [(''dex'', JArr [''uniswap''])]) w = Inr w1
        \<and> setFilterChain P chain (Some [(''dex'', JArr [''uniswap''])]) w1 = Inr w1
        \<and> setFilterChain P chain (Some [(''pair'', JArr [''ETHUSDT''])]) w1 = Inr w2
        \<and> getFromLocalStorage (filter_storage w2) (''FILTER_'' @ toUpperCase P chain) = Some r
        \<and> map_of r ''dex'' = Some (JArr [''uniswap''])
        \<and> map_of r ''pair'' = Some (JArr [''ETHUSDT''])))"
proof (intro conjI impI)
  assume "setFilterMulti P val w = Inr w'"
  then show "\<exists>next. getFromLocalStorage (filter_storage w') ''FILTER_MULTICHAIN'' = Some next \<and>
         (\<forall>k. map_of next k =
            merge_on_write (multi_fields P) val
              (or_obj (getFromLocalStorage (filter_storage w) ''FILTER_MULTICHAIN'')) k)"
    by (rule setFilterMulti_merge)
next
  assume "setFilterMulti P val w = Inr w'"
  then show "setFilterMulti P val w' = Inr w'" by (rule setFilterMulti_idem)
next
  assume "setFilterChain P chain val w = Inr w''"
  then show "\<exists>next. getFromLocalStorage (filter_storage w'') (''FILTER_'' @ toUpperCase P chain) = Some next \<and>
         (\<forall>k. map_of next k =
            merge_on_write (chain_fields P) val
              (or_obj (getFromLocalStorage (filter_storage w) (''FILTER_'' @ toUpperCase P chain))) k)"
    by (rule setFilterChain_merge)
next
  assume "setFilterChain P chain val w = Inr w''"
  then show "setFilterChain P chain val w'' = Inr w''" by (rule setFilterChain_idem)
next
  assume "agrees_on_ascii P"
  then show "\<exists>w1 w2 r.
        setFilterMulti P (Some [(''dex'', JArr [''uniswap''])]) w = Inr w1
        \<and> setFilterMulti P (Some [(''dex'', JArr [''uniswap''])]) w1 = Inr w1
        \<and> setFilterMulti P (Some [(''pair'', JArr [''ETHUSDT''])]) w1 = Inr w2
        \<and> getFromLocalStorage (filter_storage w2) ''FILTER_MULTICHAIN'' = Some r
        \<and> map_of r ''dex'' = Some (JArr [''uniswap''])
        \<and> map_of r ''pair'' = Some (JArr [''ETHUSDT''])"
    by (rule setFilterMulti_dex_then_pair)
next
  assume "agrees_on_ascii P"
  then show "\<exists>w1 w2 r.
        setFilterChain P chain (Some [(''dex'', JArr [''uniswap''])]) w = Inr w1
        \<and> setFilterChain P chain (Some [(''dex'', JArr [''uniswap''])]) w1 = Inr w1
        \<and> setFilterChain P chain (Some [(''pair'', JArr [''ETHUSDT''])]) w1 = Inr w2
        \<and> getFromLocalStorage (filter_storage w2) (''FILTER_'' @ toUpperCase P chain) = Some r
        \<and> map_of r ''dex'' = Some (JArr [''uniswap''])
        \<and> map_of r ''pair'' = Some (JArr [''ETHUSDT''])"
    by (rule setFilterChain_dex_then_pair)
qed

theorem setFilter_merge_on_write_witness:
  "setFilterMulti ascii_platform (Some [(''dex'', JArr [''UniSwap''])])
       (blank_window\<lparr>filter_storage := [(''FILTER_MULTICHAIN'', stored_pair_pnl)]\<rparr>)
     = Inr (blank_window\<lparr>filter_storage :=
         [(''FILTER_MULTICHAIN'', stored_pair_pnl @ [(''dex'', JArr [''uniswap''])])]\<rparr>)
   \<and> setFilterMulti ascii_platform (Some [(''dex'', JArr [''UniSwap''])])
       (blank_window\<lparr>filter_storage :=
         [(''FILTER_MULTICHAIN'', stored_pair_pnl @ [(''dex'', JArr [''uniswap''])])]\<rparr>)
     = Inr (blank_window\<lparr>filter_storage :=
         [(''FILTER_MULTICHAIN'', stored_pair_pnl @ [(''dex'', JArr [''uniswap''])])]\<rparr>)
   \<and> setFilterChain ascii_platform ''bsc'' (Some [(''dex'', JArr [''UniSwap''])])
       (blank_window\<lparr>filter_storage := [(''FILTER_BSC'', stored_pair_pnl)]\<rparr>)
     = Inr (blank_window\<lparr>filter_storage :=
         [(''FILTER_BSC'', stored_pair_pnl @ [(''dex'', JArr [''uniswap''])])]\<rparr>)
   \<and> setFilterChain ascii_platform ''bsc'' (Some [(''dex'', JArr [''UniSwap''])])
       (blank_window\<lparr>filter_storage :=
         [(''FILTER_BSC'', stored_pair_pnl @ [(''dex'', JArr [''uniswap''])])]\<rparr>)
     = Inr (blank_window\<lparr>filter_storage :=
         [(''FILTER_BSC'', stored_pair_pnl @ [(''dex'', JArr [''uniswap''])])]\<rparr>)"
proof -
  let ?val = "Some [(''dex'', JArr [''UniSwap''])]"
  let ?w = "blank_window\<lparr>filter_storage := [(''FILTER_MULTICHAIN'', stored_pair_pnl)]\<rparr>"
  let ?w' = "blank_window\<lparr>filter_storage :=
         [(''FILTER_MULTICHAIN'', stored_pair_pnl @ [(''dex'', JArr [''uniswap''])])]\<rparr>"
  let ?v = "blank_window\<lparr>filter_storage := [(''FILTER_BSC'', stored_pair_pnl)]\<rparr>"
  let ?v' = "blank_window\<lparr>filter_storage :=
         [(''FILTER_BSC'', stored_pair_pnl @ [(''dex'', JArr [''uniswap''])])]\<rparr>"
  have m: "setFilterMulti ascii_platform ?val ?w = Inr ?w'" by code_simp
  have c: "setFilterChain ascii_platform ''bsc'' ?val ?v = Inr ?v'" by code_simp
  from setFilter_merge_on_write [where P = ascii_platform and val = ?val and w = ?w and w' = ?w'] m
  have m': "setFilterMulti ascii_platform ?val ?w' = Inr ?w'" by blast
  from setFilter_merge_on_write [where P = ascii_platform and val = ?val and w = ?v and w'' = ?v' and chain = "''bsc''"] c
  have c': "setFilterChain ascii_platform ''bsc'' ?val ?v' = Inr ?v'" by blast
  from m m' c c' show ?thesis by blast
qed


section \<open>The filter store: reads\<close>

lemma or_empty_map_Inr:
  "or_empty_map g x = Inr ys \<Longrightarrow> \<exists>xs. or_empty x = JArr xs \<and> ys = map g xs"
  by (cases "or_empty x") (simp_all add: or_empty_map_def)

lemma or_empty_ascii: "ascii_array x \<Longrightarrow> or_empty x = JArr xs \<Longrightarrow> list_all ascii xs"
  by (cases x) (auto simp add: ascii_array_def split: if_splits jsval.splits)

lemma lower_cased_or_empty_map:
  assumes "or_empty_map (toLowerCase P) x = Inr ys" and "agrees_on_ascii P" and "ascii_array x"
  shows "lower_cased P (Some (JArr ys))"
proof -
  from assms(1) obtain xs where xs: "or_empty x = JArr xs" and ys: "ys = map (toLowerCase P) xs"
    by (auto dest: or_empty_map_Inr)
  from assms(3) xs have "list_all ascii xs" by (rule or_empty_ascii)
  with assms(2) show ?thesis
    by (simp add: ys lower_cased_def list_all_iff agrees_toLowerCase_idem)
qed

lemma upper_cased_or_empty_map:
  assumes "or_empty_map (toUpperCase P) x = Inr ys" and "agrees_on_ascii P" and "ascii_array x"
  shows "upper_cased P (Some (JArr ys))"
proof -
  from assms(1) obtain xs where xs: "or_empty x = JArr xs" and ys: "ys = map (toUpperCase P) xs"
    by (auto dest: or_empty_map_Inr)
  from assms(3) xs have "list_all ascii xs" by (rule or_empty_ascii)
  with assms(2) show ?thesis
    by (simp add: ys upper_cased_def list_all_iff agrees_toUpperCase_idem)
qed

lemma getFilterMulti_stored:
  assumes "getFromLocalStorage (filter_storage w) ''FILTER_MULTICHAIN'' = Some f"
    and "getFilterMulti P w = Inr r"
  shows "reads_mapped f r ''dex'' (toLowerCase P) \<and> reads_mapped f r ''pair'' (toUpperCase P)
       \<and> reads_as_stored f r ''chains'' \<and> reads_as_stored f r ''cex''
       \<and> (agrees_on_ascii P \<longrightarrow> ascii_array (map_of f ''dex'') \<longrightarrow> lower_cased P (map_of r ''dex''))
       \<and> (agrees_on_ascii P \<longrightarrow> ascii_array (map_of f ''pair'') \<longrightarrow> upper_cased P (map_of r ''pair''))"
proof -
  from assms obtain dex pair where
    d: "or_empty_map (toLowerCase P) (map_of f ''dex'') = Inr dex"
    and p: "or_empty_map (toUpperCase P) (map_of f ''pair'') = Inr pair"
    and r: "r = [(''chains'', or_empty (map_of f ''chains'')), (''cex'', or_empty (map_of f ''cex'')),
                 (''dex'', JArr dex), (''pair'', JArr pair)]"
    by (auto simp add: getFilterMulti_def split: sum.splits)
  from d p show ?thesis
    by (auto simp add: r reads_mapped_def reads_as_stored_def lower_cased_or_empty_map
        upper_cased_or_empty_map split: option.splits jsval.splits)
qed

lemma chain_result_stored:
  assumes "chain_result P (Some f) = Inr r"
  shows "reads_mapped f r ''dex'' (toLowerCase P) \<and> reads_mapped f r ''pair'' (toUpperCase P)
       \<and> reads_as_stored f r ''cex''
       \<and> (agrees_on_ascii P \<longrightarrow> ascii_array (map_of f ''dex'') \<longrightarrow> lower_cased P (map_of r ''dex''))
       \<and> (agrees_on_ascii P \<longrightarrow> ascii_array (map_of f ''pair'') \<longrightarrow> upper_cased P (map_of r ''pair''))"
proof -
  from assms obtain cex dex pair where
    c: "or_empty_map (\<lambda>x. x) (map_of f ''cex'') = Inr cex"
    and p: "or_empty_map (toUpperCase P) (map_of f ''pair'') = Inr pair"
    and d: "or_empty_map (toLowerCase P) (map_of f ''dex'') = Inr dex"
    and r: "r = [(''cex'', JArr cex), (''pair'', JArr pair), (''dex'', JArr dex)]"
    by (auto simp add: chain_result_def split: sum.splits)
  from c have "reads_as_stored f r ''cex''"
    by (auto dest!: or_empty_map_Inr simp add: r reads_as_stored_def split: option.splits jsval.splits)
  with d p show ?thesis
    by (simp add: r reads_mapped_def lower_cased_or_empty_map upper_cased_or_empty_map)
qed

lemma getFilterChain_stored:
  assumes "getFromLocalStorage (filter_storage w)
             (''FILTER_'' @ toUpperCase P (toLowerCase P chain)) = Some f"
  shows "getFilterChain P chain w = (chain_result P (Some f), w)"
  using assms by (simp add: getFilterChain_def Let_def)

lemma getFilterCEX_stored:
  assumes "getFromLocalStorage (filter_storage w) (''FILTER_CEX_'' @ toUpperCase P cexName) = Some f"
    and "getFilterCEX P cexName w = Inr r"
  shows "reads_mapped f r ''dex'' (toLowerCase P) \<and> reads_mapped f r ''pair'' (toUpperCase P)
       \<and> reads_as_stored f r ''chains''
       \<and> (agrees_on_ascii P \<longrightarrow> ascii_array (map_of f ''dex'') \<longrightarrow> lower_cased P (map_of r ''dex''))
       \<and> (agrees_on_ascii P \<longrightarrow> ascii_array (map_of f ''pair'') \<longrightarrow> upper_cased P (map_of r ''pair''))"
proof -
  from assms obtain dex pair where
    p: "or_empty_map (toUpperCase P) (map_of f ''pair'') = Inr pair"
    and d: "or_empty_map (toLowerCase P) (map_of f ''dex'') = Inr dex"
    and r: "r = [(''chains'', or_empty (map_of f ''chains'')), (''pair'', JArr pair),
                 (''dex'', JArr dex), (''sort'', or_A (map_of f ''sort''))]"
    by (auto simp add: getFilterCEX_def Let_def split: sum.splits)
  from d p show ?thesis
    by (auto simp add: r reads_mapped_def reads_as_stored_def lower_cased_or_empty_map
        upper_cased_or_empty_map split: option.splits jsval.splits)
qed

text \<open>
  Claim C7, as stated, fails: an exchange identifier stored in lower case under a
  chain-scoped or the aggregate filter record is returned in lower case by
  \<open>getFilterChain\<close> and by \<open>getFilterMulti\<close>.
\<close>

theorem filter_reads_exchange_not_uppercased_counterexample:
  "fst (getFilterChain ascii_platform ''bsc''
         (blank_window\<lparr>filter_storage := [(''FILTER_BSC'', [(''cex'', JArr [''binance''])])]\<rparr>))
     = Inr [(''cex'', JArr [''binance'']), (''pair'', JArr []), (''dex'', JArr [])]
   \<and> getFilterMulti ascii_platform
         (blank_window\<lparr>filter_storage := [(''FILTER_MULTICHAIN'', [(''cex'', JArr [''binance''])])]\<rparr>)
     = Inr [(''chains'', JArr []), (''cex'', JArr [''binance'']), (''dex'', JArr []), (''pair'', JArr [])]
   \<and> \<not> upper_cased ascii_platform (Some (JArr [''binance'']))"
  by code_simp

text \<open>
  Claim C7, amended. For every stored filter record in every scope, a read that returns
  gives the stored \<open>dex\<close> identifiers mapped with \<open>toLowerCase\<close> and the stored \<open>pair\<close>
  identifiers mapped with \<open>toUpperCase\<close>; the chain identifiers (aggregate and exchange
  scope) and the exchange identifiers (aggregate and chain scope) are returned as they are
  stored, without case normalization. Where the stored \<open>dex\<close> (\<open>pair\<close>) identifiers are
  ASCII strings, the returned ones are in lower (upper) case: \<open>toLowerCase\<close>
  (\<open>toUpperCase\<close>) leaves each of them as it is.
\<close>

theorem filter_reads_normalize_dex_and_pair:
  "(getFromLocalStorage (filter_storage w) ''FILTER_MULTICHAIN'' = Some f \<longrightarrow>
    getFilterMulti P w = Inr r \<longrightarrow>
      reads_mapped f r ''dex'' (toLowerCase P) \<and> reads_mapped f r ''pair'' (toUpperCase P)
      \<and> reads_as_stored f r ''chains'' \<and> reads_as_stored f r ''cex''
      \<and> (agrees_on_ascii P \<longrightarrow> ascii_array (map_of f ''dex'') \<longrightarrow> lower_cased P (map_of r ''dex''))
      \<and> (agrees_on_ascii P \<longrightarrow> ascii_array (map_of f ''pair'') \<longrightarrow> upper_cased P (map_of r ''pair'')))
   \<and> (getFromLocalStorage (filter_storage w)
         (''FILTER_'' @ toUpperCase P (toLowerCase P chain)) = Some g \<longrightarrow>
      fst (getFilterChain P chain w) = Inr r' \<longrightarrow>
      reads_mapped g r' ''dex'' (toLowerCase P) \<and> reads_mapped g r' ''pair'' (toUpperCase P)
      \<and> reads_as_stored g r' ''cex''
      \<and> (agrees_on_ascii P \<longrightarrow> ascii_array (map_of g ''dex'') \<longrightarrow> lower_cased P (map_of r' ''dex''))
      \<and> (agrees_on_ascii P \<longrightarrow> ascii_array (map_of g ''pair'') \<longrightarrow> upper_cased P (map_of r' ''pair'')))
   \<and> (getFromLocalStorage (filter_storage w) (''FILTER_CEX_'' @ toUpperCase P cexName) = Some h \<longrightarrow>
      getFilterCEX P cexName w = Inr r'' \<longrightarrow>
      reads_mapped h r'' ''dex'' (toLowerCase P) \<and> reads_mapped h r'' ''pair'' (toUpperCase P)
      \<and> reads_as_stored h r'' ''chains''
      \<and> (agrees_on_ascii P \<longrightarrow> ascii_array (map_of h ''dex'') \<longrightarrow> lower_cased P (map_of r'' ''dex''))
      \<and> (agrees_on_ascii P \<longrightarrow> ascii_array (map_of h ''pair'') \<longrightarrow> upper_cased P (map_of r'' ''pair'')))"
proof (intro conjI)
  show "getFromLocalStorage (filter_storage w) ''FILTER_MULTICHAIN'' = Some f \<longrightarrow>
    getFilterMulti P w = Inr r \<longrightarrow>
      reads_mapped f r ''dex'' (toLowerCase P) \<and> reads_mapped f r ''pair'' (toUpperCase P)
      \<and> reads_as_stored f r ''chains'' \<and> reads_as_stored f r ''cex''
      \<and> (agrees_on_ascii P \<longrightarrow> ascii_array (map_of f ''dex'') \<longrightarrow> lower_cased P (map_of r ''dex''))
      \<and> (agrees_on_ascii P \<longrightarrow> ascii_array (map_of f ''pair'') \<longrightarrow> upper_cased P (map_of r ''pair''))"
    using getFilterMulti_stored [of w f P r] by blast
  show "getFromLocalStorage (filter_storage w)
         (''FILTER_'' @ toUpperCase P (toLowerCase P chain)) = Some g \<longrightarrow>
      fst (getFilterChain P chain w) = Inr r' \<longrightarrow>
      reads_mapped g r' ''dex'' (toLowerCase P) \<and> reads_mapped g r' ''pair'' (toUpperCase P)
      \<and> reads_as_stored g r' ''cex''
      \<and> (agrees_on_ascii P \<longrightarrow> ascii_array (map_of g ''dex'') \<longrightarrow> lower_cased P (map_of r' ''dex''))
      \<and> (agrees_on_ascii P \<longrightarrow> ascii_array (map_of g ''pair'') \<longrightarrow> upper_cased P (map_of r' ''pair''))"
  proof (intro impI)
    assume "getFromLocalStorage (filter_storage w)
         (''FILTER_'' @ toUpperCase P (toLowerCase P chain)) = Some g"
      and "fst (getFilterChain P chain w) = Inr r'"
    then have "chain_result P (Some g) = Inr r'" by (simp add: getFilterChain_stored)
    then show "reads_mapped g r' ''dex'' (toLowerCase P) \<and> reads_mapped g r' ''pair'' (toUpperCase P)
      \<and> reads_as_stored g r' ''cex''
      \<and> (agrees_on_ascii P \<longrightarrow> ascii_array (map_of g ''dex'') \<longrightarrow> lower_cased P (map_of r' ''dex''))
      \<and> (agrees_on_ascii P \<longrightarrow> ascii_array (map_of g ''pair'') \<longrightarrow> upper_cased P (map_of r' ''pair''))"
      by (rule chain_result_stored)
  qed
  show "getFromLocalStorage (filter_storage w) (''FILTER_CEX_'' @ toUpperCase P cexName) = Some h \<longrightarrow>
      getFilterCEX P cexName w = Inr r'' \<longrightarrow>
      reads_mapped h r'' ''dex'' (toLowerCase P) \<and> reads_mapped h r'' ''pair'' (toUpperCase P)
      \<and> reads_as_stored h r'' ''chains''
      \<and> (agrees_on_ascii P \<longrightarrow> ascii_array (map_of h ''dex'') \<longrightarrow> lower_cased P (map_of r'' ''dex''))
      \<and> (agrees_on_ascii P \<longrightarrow> ascii_array (map_of h ''pair'') \<longrightarrow> upper_cased P (map_of r'' ''pair''))"
    using getFilterCEX_stored [of w P cexName h r''] by blast
qed

theorem filter_reads_normalize_dex_and_pair_witness:
  "getFilterMulti ascii_platform three_scopes_window =
     Inr [(''chains'', JArr [''BSC'']), (''cex'', JArr [''binance'']), (''dex'', JArr [''uniswap'']),
          (''pair'', JArr [''ETHUSDT''])]
   \<and> fst (getFilterChain ascii_platform ''Bsc'' three_scopes_window) =
     Inr [(''cex'', JArr [''binance'']), (''pair'', JArr [''ETHUSDT'']), (''dex'', JArr [''uniswap''])]
   \<and> getFilterCEX ascii_platform ''gate'' three_scopes_window =
     Inr [(''chains'', JArr [''BSC'']), (''pair'', JArr [''ETHUSDT'']), (''dex'', JArr [''uniswap'']),
          (''sort'', JStr ''A'')]
   \<and> reads_as_stored mixed_case_filter
        [(''chains'', JArr [''BSC'']), (''cex'', JArr [''binance'']), (''dex'', JArr [''uniswap'']),
         (''pair'', JArr [''ETHUSDT''])] ''cex''
   \<and> reads_as_stored mixed_case_filter
        [(''cex'', JArr [''binance'']), (''pair'', JArr [''ETHUSDT'']), (''dex'', JArr [''uniswap''])] ''cex''
   \<and> reads_as_stored mixed_case_filter
        [(''chains'', JArr [''BSC'']), (''pair'', JArr [''ETHUSDT'']), (''dex'', JArr [''uniswap'']),
         (''sort'', JStr ''A'')] ''chains''
   \<and> lower_cased ascii_platform (Some (JArr [''uniswap'']))
   \<and> upper_cased ascii_platform (Some (JArr [''ETHUSDT'']))"
proof -
  let ?P = ascii_platform
  let ?rm = "[(''chains'', JArr [''BSC'']), (''cex'', JArr [''binance'']), (''dex'', JArr [''uniswap'']),
          (''pair'', JArr [''ETHUSDT''])]"
  let ?rc = "[(''cex'', JArr [''binance'']), (''pair'', JArr [''ETHUSDT'']), (''dex'', JArr [''uniswap''])]"
  let ?rx = "[(''chains'', JArr [''BSC'']), (''pair'', JArr [''ETHUSDT'']), (''dex'', JArr [''uniswap'']),
          (''sort'', JStr ''A'')]"
  have s1: "getFromLocalStorage (filter_storage three_scopes_window) ''FILTER_MULTICHAIN''
            = Some mixed_case_filter" by code_simp
  have s2: "getFromLocalStorage (filter_storage three_scopes_window)
              (''FILTER_'' @ toUpperCase ?P (toLowerCase ?P ''Bsc'')) = Some mixed_case_filter"
    by code_simp
  have s3: "getFromLocalStorage (filter_storage three_scopes_window)
              (''FILTER_CEX_'' @ toUpperCase ?P ''gate'') = Some mixed_case_filter" by code_simp
  have m: "getFilterMulti ?P three_scopes_window = Inr ?rm" by code_simp
  have c: "fst (getFilterChain ?P ''Bsc'' three_scopes_window) = Inr ?rc" by code_simp
  have x: "getFilterCEX ?P ''gate'' three_scopes_window = Inr ?rx" by code_simp
  have a: "ascii_array (map_of mixed_case_filter ''dex'')"
    "ascii_array (map_of mixed_case_filter ''pair'')" by code_simp+
  have dm: "map_of ?rm ''dex'' = Some (JArr [''uniswap''])"
    and pm: "map_of ?rm ''pair'' = Some (JArr [''ETHUSDT''])" by simp_all
  note t = filter_reads_normalize_dex_and_pair [where P = ?P and w = three_scopes_window
      and f = mixed_case_filter and g = mixed_case_filter and h = mixed_case_filter
      and chain = "''Bsc''" and cexName = "''gate''" and r = ?rm and r' = ?rc and r'' = ?rx]
  from t s1 m have 1: "reads_as_stored mixed_case_filter ?rm ''cex''" by blast
  from t s2 c have 2: "reads_as_stored mixed_case_filter ?rc ''cex''" by blast
  from t s3 x have 3: "reads_as_stored mixed_case_filter ?rx ''chains''" by blast
  from t s1 m a agrees_on_ascii_platform have "lower_cased ?P (map_of ?rm ''dex'')" by blast
  then have 4: "lower_cased ?P (Some (JArr [''uniswap'']))" by (simp only: dm)
  from t s1 m a agrees_on_ascii_platform have "upper_cased ?P (map_of ?rm ''pair'')" by blast
  then have 5: "upper_cased ?P (Some (JArr [''ETHUSDT'']))" by (simp only: pm)
  from m c x 1 2 3 4 5 show ?thesis by blast
qed

section \<open>The legacy migration in a chain-scope read\<close>

text \<open>
  Claim C10. A chain-scope read can write to the store: when nothing is stored under the
  chain-scoped key, the registry gives the chain a display name whose upper-case form
  (the legacy name, as the source tests it) is not empty, and a record is stored under the
  legacy key made from that name, \<open>getFilterChain\<close> stores that record under the
  chain-scoped key (the store is not what it was before) and returns the result built from
  it.
\<close>

theorem getFilterChain_migrates_legacy_record:
  assumes "getFromLocalStorage (filter_storage w) (''FILTER_'' @ toUpperCase P (toLowerCase P chain)) = None"
    and "CONFIG_CHAINS w = Some reg"
    and "map_of reg (toLowerCase P chain) = Some cfg"
    and "Nama_Chain cfg = Some name"
    and "toUpperCase P name \<noteq> []"
    and "getFromLocalStorage (filter_storage w) (''FILTER_'' @ toUpperCase P name) = Some lf"
  shows "snd (getFilterChain P chain w) =
           w\<lparr>filter_storage :=
               saveToLocalStorage (''FILTER_'' @ toUpperCase P (toLowerCase P chain)) lf (filter_storage w)\<rparr>
         \<and> getFromLocalStorage (filter_storage (snd (getFilterChain P chain w)))
              (''FILTER_'' @ toUpperCase P (toLowerCase P chain)) = Some lf
         \<and> filter_storage (snd (getFilterChain P chain w)) \<noteq> filter_storage w
         \<and> fst (getFilterChain P chain w) = chain_result P (Some lf)"
proof -
  let ?key = "''FILTER_'' @ toUpperCase P (toLowerCase P chain)"
  from assms(2-4) have l: "legacy_name P w (toLowerCase P chain) = toUpperCase P name"
    by (simp add: legacy_name_def js_get_def)
  from assms(1,5,6) l have g: "getFilterChain P chain w =
      (chain_result P (Some lf), w\<lparr>filter_storage := saveToLocalStorage ?key lf (filter_storage w)\<rparr>)"
    by (simp add: getFilterChain_def Let_def)
  have a: "getFromLocalStorage (saveToLocalStorage ?key lf (filter_storage w)) ?key = Some lf"
    by (simp add: getFromLocalStorage_def saveToLocalStorage_def update_conv')
  with assms(1) have "saveToLocalStorage ?key lf (filter_storage w) \<noteq> filter_storage w"
    by auto
  with g a show ?thesis by simp
qed

theorem getFilterChain_migrates_legacy_record_witness:
  "getFilterChain ascii_platform ''bsc''
     (blank_window\<lparr>CONFIG_CHAINS := Some two_chains,
                   filter_storage := [(''FILTER_BNB'', mixed_case_filter)]\<rparr>)
   = (Inr [(''cex'', JArr [''binance'']), (''pair'', JArr [''ETHUSDT'']), (''dex'', JArr [''uniswap''])],
      blank_window\<lparr>CONFIG_CHAINS := Some two_chains,
                   filter_storage := [(''FILTER_BNB'', mixed_case_filter),
                                      (''FILTER_BSC'', mixed_case_filter)]\<rparr>)"
proof -
  let ?w = "blank_window\<lparr>CONFIG_CHAINS := Some two_chains,
                   filter_storage := [(''FILTER_BNB'', mixed_case_filter)]\<rparr>"
  have 1: "getFromLocalStorage (filter_storage ?w) (''FILTER_'' @ toUpperCase ascii_platform (toLowerCase ascii_platform ''bsc'')) = None"
    by code_simp
  have 2: "CONFIG_CHAINS ?w = Some two_chains" by code_simp
  have 3: "map_of two_chains (toLowerCase ascii_platform ''bsc'') = Some \<lparr>Nama_Chain = Some ''BNB''\<rparr>" by code_simp
  have 4: "Nama_Chain \<lparr>Nama_Chain = Some ''BNB''\<rparr> = Some ''BNB''" by simp
  have 5: "toUpperCase ascii_platform ''BNB'' \<noteq> []" by code_simp
  have 6: "getFromLocalStorage (filter_storage ?w) (''FILTER_'' @ toUpperCase ascii_platform ''BNB'') = Some mixed_case_filter"
    by code_simp
  have r: "chain_result ascii_platform (Some mixed_case_filter) =
      Inr [(''cex'', JArr [''binance'']), (''pair'', JArr [''ETHUSDT'']), (''dex'', JArr [''uniswap''])]"
    by code_simp
  have s: "?w\<lparr>filter_storage :=
               saveToLocalStorage (''FILTER_'' @ toUpperCase ascii_platform (toLowerCase ascii_platform ''bsc'')) mixed_case_filter
                 (filter_storage ?w)\<rparr> =
      blank_window\<lparr>CONFIG_CHAINS := Some two_chains,
                   filter_storage := [(''FILTER_BNB'', mixed_case_filter),
                                      (''FILTER_BSC'', mixed_case_filter)]\<rparr>"
    by code_simp
  from getFilterChain_migrates_legacy_record [OF 1 2 3 4 5 6] r s
  show ?thesis by (simp add: prod_eq_iff)
qed

section \<open>The CEX mode controller: the state invariant\<close>

lemma getAppMode_keeps:
  "manager (snd (getAppMode P w)) = manager w"
  "cex_storage (snd (getAppMode P w)) = cex_storage w"
  "history_entries (snd (getAppMode P w)) = history_entries w"
  "refresh_calls (snd (getAppMode P w)) = refresh_calls w"
  by (cases "AppMode w"; simp add: getAppMode_def Let_def)+

lemma enableCEXMode_empty: "enableCEXMode P [] reload w = w"
  by (simp add: enableCEXMode_def)

lemma enableCEXMode_manager:
  "cexName \<noteq> [] \<Longrightarrow>
   manager (enableCEXMode P cexName reload w) = \<lparr>active = True, selectedCEX = Some (toUpperCase P cexName)\<rparr>
   \<and> cex_storage (enableCEXMode P cexName reload w) = Some (manager (enableCEXMode P cexName reload w))"
  by (simp add: enableCEXMode_def Let_def saveState_def try_pushState_def invalidateAppModeCache_def
      refreshTokensTable_def)

lemma disableCEXMode_manager:
  "manager (disableCEXMode P reload w) = \<lparr>active = False, selectedCEX = None\<rparr>
   \<and> cex_storage (disableCEXMode P reload w) = Some (manager (disableCEXMode P reload w))"
  by (simp add: disableCEXMode_def Let_def saveState_def try_pushState_def invalidateAppModeCache_def
      refreshTokensTable_def resetTheme_def getAppMode_keeps)

lemma enableCEXMode_inv:
  "CexModeState_inv (manager w) \<Longrightarrow> CexModeState_inv (manager (enableCEXMode P cexName reload w))"
  by (cases "cexName = []") (simp_all add: enableCEXMode_empty enableCEXMode_manager CexModeState_inv_def)

lemma disableCEXMode_inv: "CexModeState_inv (manager (disableCEXMode P reload w))"
  by (simp add: disableCEXMode_manager CexModeState_inv_def)

lemma toggleCEXMode_inv:
  "CexModeState_inv (manager w) \<Longrightarrow> CexModeState_inv (manager (toggleCEXMode P cexName w))"
  by (simp add: toggleCEXMode_def enableCEXMode_inv disableCEXMode_inv)

lemma init_inv:
  "CexModeState_inv (manager w) \<Longrightarrow> CexModeState_inv (manager (init P w))"
  by (simp add: init_def Let_def enableCEXMode_inv disableCEXMode_inv)

lemma checkURLAndUpdateMode_inv:
  "CexModeState_inv (manager w) \<Longrightarrow> CexModeState_inv (manager (checkURLAndUpdateMode P w))"
  by (simp add: checkURLAndUpdateMode_def Let_def enableCEXMode_inv disableCEXMode_inv)

lemma constructor_inv:
  "CexModeState_inv (manager (constructor w)) =
     (case cex_storage w of
        None \<Rightarrow> True
      | Some p \<Rightarrow> (or_null (selectedCEX p) \<noteq> None) = active p)"
  by (simp add: constructor_def loadState_def CexModeState_inv_def split: option.splits)

text \<open>
  Claim C9, as stated, fails: restoring the persisted record \<open>{active: true,
  selectedCEX: null}\<close> gives a controller that is active with no exchange selected, and with
  no \<open>cex\<close> parameter in the query \<open>init\<close> leaves it so.
\<close>

theorem constructor_breaks_invariant_counterexample:
  "\<not> CexModeState_inv (manager (constructor
        (blank_window\<lparr>cex_storage := Some \<lparr>active = True, selectedCEX = None\<rparr>\<rparr>)))
   \<and> \<not> CexModeState_inv (manager (init ascii_platform (constructor
        (blank_window\<lparr>cex_storage := Some \<lparr>active = True, selectedCEX = None\<rparr>\<rparr>))))"
  by code_simp

text \<open>
  Claim C9, amended. After construction the invariant holds exactly when no record is
  persisted or the persisted record has a non-empty \<open>selectedCEX\<close> if and only if its
  \<open>active\<close> is true. The invariant is preserved by \<open>enableCEXMode\<close>, \<open>disableCEXMode\<close>,
  \<open>toggleCEXMode\<close>, \<open>init\<close> and \<open>checkURLAndUpdateMode\<close>. An enable with a non-empty
  name and a disable persist the controller's fields as they then are.
\<close>

theorem CexModeState_inv_holds:
  "(CexModeState_inv (manager (constructor w)) =
      (case cex_storage w of
         None \<Rightarrow> True
       | Some p \<Rightarrow> (or_null (selectedCEX p) \<noteq> None) = active p))
   \<and> (CexModeState_inv (manager w) \<longrightarrow>
        CexModeState_inv (manager (enableCEXMode P cexName reload w))
        \<and> CexModeState_inv (manager (disableCEXMode P reload w))
        \<and> CexModeState_inv (manager (toggleCEXMode P cexName w))
        \<and> CexModeState_inv (manager (init P w))
        \<and> CexModeState_inv (manager (checkURLAndUpdateMode P w)))
   \<and> (cexName \<noteq> [] \<longrightarrow>
        cex_storage (enableCEXMode P cexName reload w) = Some (manager (enableCEXMode P cexName reload w)))
   \<and> cex_storage (disableCEXMode P reload w) = Some (manager (disableCEXMode P reload w))"
proof (intro conjI impI)
  show "cexName \<noteq> [] \<Longrightarrow>
        cex_storage (enableCEXMode P cexName reload w) = Some (manager (enableCEXMode P cexName reload w))"
    using enableCEXMode_manager [where P = P and cexName = cexName and reload = reload and w = w] by blast
  show "cex_storage (disableCEXMode P reload w) = Some (manager (disableCEXMode P reload w))"
    using disableCEXMode_manager [where P = P and reload = reload and w = w] by blast
qed (simp_all add: constructor_inv enableCEXMode_inv disableCEXMode_inv toggleCEXMode_inv init_inv
      checkURLAndUpdateMode_inv)

theorem CexModeState_inv_holds_witness:
  "CexModeState_inv (manager (constructor
      (blank_window\<lparr>cex_storage := Some \<lparr>active = True, selectedCEX = Some ''GATE''\<rparr>\<rparr>)))
   \<and> CexModeState_inv (manager (checkURLAndUpdateMode ascii_platform (constructor
      (blank_window\<lparr>cex_storage := Some \<lparr>active = True, selectedCEX = Some ''GATE''\<rparr>\<rparr>))))
   \<and> CexModeState_inv (manager (toggleCEXMode ascii_platform ''OKX'' (constructor
      (blank_window\<lparr>cex_storage := Some \<lparr>active = True, selectedCEX = Some ''GATE''\<rparr>\<rparr>))))"
proof -
  let ?w = "blank_window\<lparr>cex_storage := Some \<lparr>active = True, selectedCEX = Some ''GATE''\<rparr>\<rparr>"
  have p: "(case cex_storage ?w of None \<Rightarrow> True
            | Some p \<Rightarrow> (or_null (selectedCEX p) \<noteq> None) = active p)"
    by code_simp
  from CexModeState_inv_holds [where P = ascii_platform and w = ?w] p
  have c: "CexModeState_inv (manager (constructor ?w))" by blast
  from CexModeState_inv_holds [where P = ascii_platform and w = "constructor ?w"
      and cexName = "''OKX''"] c
  show ?thesis by blast
qed

section \<open>The CEX mode controller: reconciliation with the URL\<close>

lemma enableCEXMode_no_reload:
  assumes "cexName \<noteq> []"
  shows "refresh_calls (enableCEXMode P cexName False w) = refresh_calls w
       \<and> (\<not> pushState_throws w \<longrightarrow>
            history_entries (enableCEXMode P cexName False w) =
              history_entries w @
                [params_set ''cex'' (toLowerCase P (toUpperCase P cexName))
                   (params_delete ''chain'' (location_search w))])"
  using assms
  by (simp add: enableCEXMode_def Let_def saveState_def try_pushState_def invalidateAppModeCache_def)

lemma disableCEXMode_no_reload:
  "refresh_calls (disableCEXMode P False w) = refresh_calls w
   \<and> (\<not> pushState_throws w \<longrightarrow>
        history_entries (disableCEXMode P False w) =
          history_entries w @ [params_delete ''cex'' (location_search w)])"
  by (simp add: disableCEXMode_def Let_def saveState_def try_pushState_def invalidateAppModeCache_def
      resetTheme_def getAppMode_keeps)

text \<open>
  Claim C8, as stated, fails: in both directions the reconciliation adds an entry to the
  session history.
\<close>

theorem checkURLAndUpdateMode_pushes_history_counterexample:
  "history_entries (checkURLAndUpdateMode ascii_platform cex_link_window) =
     history_entries cex_link_window @ [[(''cex'', ''gate'')]]
   \<and> history_entries (checkURLAndUpdateMode ascii_platform back_from_okx_window) =
     history_entries back_from_okx_window @ [[(''chain'', ''bsc'')]]"
  by code_simp

text \<open>
  Claim C8, amended. In \<open>checkURLAndUpdateMode\<close>, when the query has a non-empty \<open>cex\<close>
  value \<open>v\<close> that does not match the controller's state, the controller performs
  \<open>enableCEXMode\<close> with the upper-cased value and \<open>reload = false\<close>; when the query has no
  \<open>cex\<close> value and the controller is active, it performs \<open>disableCEXMode\<close> with
  \<open>reload = false\<close>. In both cases \<open>refreshTokensTable\<close> is not called, and, unless the
  environment rejects \<open>pushState\<close>, one entry with the rewritten query is added to the
  session history. (\<open>enableCEXMode\<close> returns at once on an empty name and applies
  \<open>toUpperCase\<close> to its argument again; the upper-cased value is taken to be non-empty,
  and for an ASCII value the second application changes nothing.)
\<close>

theorem checkURLAndUpdateMode_no_reload_but_push:
  "(params_get (location_search w) ''cex'' = Some v \<longrightarrow> v \<noteq> [] \<longrightarrow>
    toUpperCase P v \<noteq> [] \<longrightarrow>
      (\<not> active (manager w) \<or> selectedCEX (manager w) \<noteq> Some (toUpperCase P v)) \<longrightarrow>
        checkURLAndUpdateMode P w = enableCEXMode P (toUpperCase P v) False w
        \<and> manager (checkURLAndUpdateMode P w) =
            \<lparr>active = True, selectedCEX = Some (toUpperCase P (toUpperCase P v))\<rparr>
        \<and> refresh_calls (checkURLAndUpdateMode P w) = refresh_calls w
        \<and> (\<not> pushState_throws w \<longrightarrow>
             history_entries (checkURLAndUpdateMode P w) =
               history_entries w @
                 [params_set ''cex'' (toLowerCase P (toUpperCase P (toUpperCase P v)))
                    (params_delete ''chain'' (location_search w))])
        \<and> (agrees_on_ascii P \<longrightarrow> ascii v \<longrightarrow>
             toUpperCase P (toUpperCase P v) = toUpperCase P v))
   \<and> (or_str (params_get (location_search w) ''cex'') = [] \<longrightarrow> active (manager w) \<longrightarrow>
        checkURLAndUpdateMode P w = disableCEXMode P False w
        \<and> manager (checkURLAndUpdateMode P w) = \<lparr>active = False, selectedCEX = None\<rparr>
        \<and> refresh_calls (checkURLAndUpdateMode P w) = refresh_calls w
        \<and> (\<not> pushState_throws w \<longrightarrow>
             history_entries (checkURLAndUpdateMode P w) =
               history_entries w @ [params_delete ''cex'' (location_search w)]))"
proof (intro conjI impI)
  assume g: "params_get (location_search w) ''cex'' = Some v" and v: "v \<noteq> []"
    and u: "toUpperCase P v \<noteq> []"
    and d: "\<not> active (manager w) \<or> selectedCEX (manager w) \<noteq> Some (toUpperCase P v)"
  from g v d show e: "checkURLAndUpdateMode P w = enableCEXMode P (toUpperCase P v) False w"
    by (auto simp add: checkURLAndUpdateMode_def Let_def)
  from enableCEXMode_manager [OF u, where P = P and reload = False and w = w]
  show "manager (checkURLAndUpdateMode P w) =
          \<lparr>active = True, selectedCEX = Some (toUpperCase P (toUpperCase P v))\<rparr>"
    by (simp add: e)
  from enableCEXMode_no_reload [OF u, where P = P and w = w]
  show "refresh_calls (checkURLAndUpdateMode P w) = refresh_calls w"
    by (simp add: e)
  {
    assume "\<not> pushState_throws w"
    with enableCEXMode_no_reload [OF u, where P = P and w = w]
    show "history_entries (checkURLAndUpdateMode P w) =
            history_entries w @
              [params_set ''cex'' (toLowerCase P (toUpperCase P (toUpperCase P v)))
                 (params_delete ''chain'' (location_search w))]"
      by (simp add: e)
  }
  {
    assume "agrees_on_ascii P" and "ascii v"
    then show "toUpperCase P (toUpperCase P v) = toUpperCase P v"
      by (rule agrees_toUpperCase_idem)
  }
next
  assume g: "or_str (params_get (location_search w) ''cex'') = []" and a: "active (manager w)"
  then show e: "checkURLAndUpdateMode P w = disableCEXMode P False w"
    by (simp add: checkURLAndUpdateMode_def Let_def)
  show "manager (checkURLAndUpdateMode P w) = \<lparr>active = False, selectedCEX = None\<rparr>"
    by (simp add: e disableCEXMode_manager)
  show "refresh_calls (checkURLAndUpdateMode P w) = refresh_calls w"
    by (simp add: e disableCEXMode_no_reload)
  assume "\<not> pushState_throws w"
  then show "history_entries (checkURLAndUpdateMode P w) =
               history_entries w @ [params_delete ''cex'' (location_search w)]"
    by (simp add: e disableCEXMode_no_reload)
qed

theorem checkURLAndUpdateMode_no_reload_but_push_witness:
  "manager (checkURLAndUpdateMode ascii_platform cex_link_window)
     = \<lparr>active = True, selectedCEX = Some ''GATE''\<rparr>
   \<and> refresh_calls (checkURLAndUpdateMode ascii_platform cex_link_window) = 0
   \<and> length (history_entries (checkURLAndUpdateMode ascii_platform cex_link_window)) = 3
   \<and> manager (checkURLAndUpdateMode ascii_platform back_from_okx_window)
     = \<lparr>active = False, selectedCEX = None\<rparr>
   \<and> refresh_calls (checkURLAndUpdateMode ascii_platform back_from_okx_window) = 0
   \<and> length (history_entries (checkURLAndUpdateMode ascii_platform back_from_okx_window)) = 2"
proof -
  let ?P = ascii_platform
  have 1: "params_get (location_search cex_link_window) ''cex'' = Some ''gate''" by code_simp
  have 2: "''gate'' \<noteq> []" by simp
  have u: "toUpperCase ?P ''gate'' \<noteq> []" by code_simp
  have 3: "\<not> active (manager cex_link_window)
           \<or> selectedCEX (manager cex_link_window) \<noteq> Some (toUpperCase ?P ''gate'')" by code_simp
  have 4: "\<not> pushState_throws cex_link_window" by code_simp
  have 5: "toUpperCase ?P (toUpperCase ?P ''gate'') = ''GATE''" by code_simp
  have 6: "refresh_calls cex_link_window = 0" and 7: "length (history_entries cex_link_window) = 2"
    by code_simp+
  have 8: "or_str (params_get (location_search back_from_okx_window) ''cex'') = []" by code_simp
  have 9: "active (manager back_from_okx_window)" by code_simp
  have 10: "\<not> pushState_throws back_from_okx_window" by code_simp
  have 11: "refresh_calls back_from_okx_window = 0"
    and 12: "length (history_entries back_from_okx_window) = 1"
    by code_simp+
  note t1 = checkURLAndUpdateMode_no_reload_but_push
    [where P = ?P and w = cex_link_window and v = "''gate''"]
  note t2 = checkURLAndUpdateMode_no_reload_but_push [where P = ?P and w = back_from_okx_window]
  from t1 1 2 u 3 4 have
    a: "manager (checkURLAndUpdateMode ?P cex_link_window)
          = \<lparr>active = True, selectedCEX = Some (toUpperCase ?P (toUpperCase ?P ''gate''))\<rparr>"
    and b: "refresh_calls (checkURLAndUpdateMode ?P cex_link_window) = refresh_calls cex_link_window"
    and c: "history_entries (checkURLAndUpdateMode ?P cex_link_window) =
               history_entries cex_link_window @
                 [params_set ''cex'' (toLowerCase ?P (toUpperCase ?P (toUpperCase ?P ''gate'')))
                    (params_delete ''chain'' (location_search cex_link_window))]"
    by blast+
  from t2 8 9 10 have
    d: "manager (checkURLAndUpdateMode ?P back_from_okx_window) = \<lparr>active = False, selectedCEX = None\<rparr>"
    and e: "refresh_calls (checkURLAndUpdateMode ?P back_from_okx_window)
              = refresh_calls back_from_okx_window"
    and f: "history_entries (checkURLAndUpdateMode ?P back_from_okx_window) =
               history_entries back_from_okx_window
                 @ [params_delete ''cex'' (location_search back_from_okx_window)]"
    by blast+
  from a b c d e f 5 6 7 11 12 show ?thesis by simp
qed

end
